theory Spec2Isabelle
  imports Main "HOL-Library.Monad_Syntax"
begin

section \<open>Strings and numbers of the host language\<close>

text \<open>
  The program is \<^verbatim>\<open>gui_downloader_tkinter.py\<close>. Its strings are modelled as
  \<^typ>\<open>string\<close>, over the ASCII range: the character classes below are the ASCII
  part of Python's classes, and case folding is ASCII case folding. Its integers are
  unbounded and modelled as \<^typ>\<open>int\<close>.
\<close>

text \<open>Exceptions, each with the message \<^verbatim>\<open>str(e)\<close> gives.\<close>

datatype error =
    ValueError string
  | OverflowError string
  | IndexError string
  | OSError string

fun str_error :: "error \<Rightarrow> string" where
  "str_error (ValueError m) = m"
| "str_error (OverflowError m) = m"
| "str_error (IndexError m) = m"
| "str_error (OSError m) = m"

definition is_digit :: "char \<Rightarrow> bool" where
  "is_digit c = (c \<in> set ''0123456789'')"

definition is_lower :: "char \<Rightarrow> bool" where
  "is_lower c = (c \<in> set ''abcdefghijklmnopqrstuvwxyz'')"

definition is_upper :: "char \<Rightarrow> bool" where
  "is_upper c = (c \<in> set ''ABCDEFGHIJKLMNOPQRSTUVWXYZ'')"

text \<open>\<^verbatim>\<open>\s\<close>, and the characters \<^verbatim>\<open>str.strip()\<close> and \<^verbatim>\<open>str.split()\<close> remove.\<close>

definition is_space :: "char \<Rightarrow> bool" where
  "is_space c = (c \<in> set [CHR 0x09, CHR 0x0A, CHR 0x0B, CHR 0x0C, CHR 0x0D,
                             CHR 0x1C, CHR 0x1D, CHR 0x1E, CHR 0x1F, CHR 0x20])"

text \<open>\<^verbatim>\<open>\w\<close>.\<close>

definition is_word :: "char \<Rightarrow> bool" where
  "is_word c = (is_digit c \<or> is_lower c \<or> is_upper c \<or> c = CHR ''_'')"

definition py_lower :: "char \<Rightarrow> char" where
  "py_lower c =
     (case map_of (zip ''ABCDEFGHIJKLMNOPQRSTUVWXYZ'' ''abcdefghijklmnopqrstuvwxyz'') c of
        Some l \<Rightarrow> l
      | None \<Rightarrow> c)"

definition py_upper :: "char \<Rightarrow> char" where
  "py_upper c =
     (case map_of (zip ''abcdefghijklmnopqrstuvwxyz'' ''ABCDEFGHIJKLMNOPQRSTUVWXYZ'') c of
        Some u \<Rightarrow> u
      | None \<Rightarrow> c)"

definition lower :: "string \<Rightarrow> string" where
  "lower s = map py_lower s"

definition upper :: "string \<Rightarrow> string" where
  "upper s = map py_upper s"

text \<open>\<^verbatim>\<open>s.strip()\<close>.\<close>

definition strip :: "string \<Rightarrow> string" where
  "strip s = rev (dropWhile is_space (rev (dropWhile is_space s)))"

text \<open>\<^verbatim>\<open>sub in s\<close> on strings.\<close>

fun contains :: "string \<Rightarrow> string \<Rightarrow> bool" where
  "contains sub [] = (sub = [])"
| "contains sub (c # cs) = (take (length sub) (c # cs) = sub \<or> contains sub cs)"

text \<open>The value of a string of decimal digits, most significant first.\<close>

definition digit_val :: "char \<Rightarrow> int" where
  "digit_val c = int (of_char c) - 48"

fun digits_val :: "int \<Rightarrow> string \<Rightarrow> int" where
  "digits_val acc [] = acc"
| "digits_val acc (c # cs) = digits_val (10 * acc + digit_val c) cs"

text \<open>\<^verbatim>\<open>str(n)\<close> for an integer, as the f-strings of the program format it.\<close>

function str_of_nat :: "nat \<Rightarrow> string" where
  "str_of_nat n =
     (if n < 10 then [''0123456789'' ! n]
      else str_of_nat (n div 10) @ [''0123456789'' ! (n mod 10)])"
  by pat_completeness auto
termination
  by (relation "measure id") auto

declare str_of_nat.simps [simp del]

definition str_of_int :: "int \<Rightarrow> string" where
  "str_of_int i = (if i < 0 then CHR ''-'' # str_of_nat (nat (- i)) else str_of_nat (nat i))"

text \<open>
  \<^verbatim>\<open>int(s)\<close> on a string, base 10: surrounding whitespace is dropped, one sign is
  allowed, and the digits may be grouped by single underscores. \<open>None\<close> is a
  \<^verbatim>\<open>ValueError\<close>.
\<close>

definition valid_int_body :: "string \<Rightarrow> bool" where
  "valid_int_body b =
     (b \<noteq> [] \<and> is_digit (hd b) \<and> is_digit (last b)
      \<and> list_all (\<lambda>c. is_digit c \<or> c = CHR ''_'') b
      \<and> \<not> contains ''__'' b)"

definition py_int_str :: "string \<Rightarrow> int option" where
  "py_int_str s =
     (let t = strip s;
          neg = (t \<noteq> [] \<and> hd t = CHR ''-'');
          body = (if t \<noteq> [] \<and> (hd t = CHR ''-'' \<or> hd t = CHR ''+'') then tl t else t)
      in if valid_int_body body
         then Some ((if neg then - 1 else 1) * digits_val 0 (filter is_digit body))
         else None)"

subsection \<open>Double-precision floats\<close>

text \<open>
  A Python \<^verbatim>\<open>float\<close> is an IEEE 754 double. The program only builds non-negative
  ones: \<open>Finite m e\<close> is the double \<open>m * 2 ^ e\<close>, with \<open>m \<le> 2 ^ 53\<close> and
  \<open>- 1074 \<le> e\<close>, and \<open>Infinity\<close> is \<^verbatim>\<open>inf\<close>.
\<close>

datatype pyfloat = Finite int int | Infinity

text \<open>\<^verbatim>\<open>n.bit_length()\<close>.\<close>

function bit_length :: "int \<Rightarrow> nat" where
  "bit_length n = (if n \<le> 0 then 0 else Suc (bit_length (n div 2)))"
  by pat_completeness auto
termination
  by (relation "measure nat") auto

declare bit_length.simps [simp del]

text \<open>The integer nearest to \<open>a / b\<close>, ties to the even one (\<open>0 \<le> a\<close>, \<open>0 < b\<close>).\<close>

definition round_half_even :: "int \<Rightarrow> int \<Rightarrow> int" where
  "round_half_even a b =
     (let q = a div b; r = a mod b
      in if 2 * r < b then q else if b < 2 * r then q + 1 else if even q then q else q + 1)"

text \<open>\<open>\<lfloor>log\<^sub>2 (a / b)\<rfloor>\<close> for \<open>0 < a\<close> and \<open>0 < b\<close>.\<close>

definition floor_log2 :: "int \<Rightarrow> int \<Rightarrow> int" where
  "floor_log2 a b =
     (let k = int (bit_length a) - int (bit_length b)
      in if (if 0 \<le> k then b * 2 ^ nat k \<le> a else b \<le> a * 2 ^ nat (- k))
         then k else k - 1)"

text \<open>
  The double nearest to the rational \<open>a / b\<close> (\<open>0 \<le> a\<close>, \<open>0 < b\<close>), ties to even:
  53 bits of mantissa, the exponent no lower than that of the subnormals, and
  \<^verbatim>\<open>inf\<close> from \<open>2 ^ 1024\<close> on.
\<close>

definition round_double :: "int \<Rightarrow> int \<Rightarrow> pyfloat" where
  "round_double a b =
     (if a = 0 then Finite 0 0
      else let e = max (floor_log2 a b - 52) (- 1074);
               m = (if 0 \<le> e then round_half_even a (b * 2 ^ nat e)
                    else round_half_even (a * 2 ^ nat (- e)) b)
           in if 0 \<le> e \<and> 2 ^ 1024 \<le> m * 2 ^ nat e then Infinity else Finite m e)"

text \<open>
  \<^verbatim>\<open>float(s)\<close> on a string of digits and dots, which is all that group 1 of
  \<^verbatim>\<open>UNIT_RE\<close> can hold: digits with at most one dot among them, and at least one
  digit; anything else raises \<^verbatim>\<open>ValueError\<close>. The result is correctly rounded.
\<close>

definition float_error :: "string \<Rightarrow> error" where
  "float_error s = ValueError (''could not convert string to float: '' @ [CHR 0x27] @ s @ [CHR 0x27])"

definition py_float :: "string \<Rightarrow> error + pyfloat" where
  "py_float s =
     (let ip = takeWhile is_digit s; r = dropWhile is_digit s
      in case r of
           [] \<Rightarrow> if ip = [] then Inl (float_error s) else Inr (round_double (digits_val 0 ip) 1)
         | c # fp \<Rightarrow>
             if c = CHR ''.'' \<and> list_all is_digit fp \<and> ip @ fp \<noteq> []
             then Inr (round_double (digits_val 0 (ip @ fp)) (10 ^ length fp))
             else Inl (float_error s))"

text \<open>
  \<^verbatim>\<open>val * c\<close> for a float and a positive integer \<open>c\<close> that a double holds exactly:
  the exact product, rounded.
\<close>

fun fmul :: "pyfloat \<Rightarrow> int \<Rightarrow> pyfloat" where
  "fmul Infinity c = Infinity"
| "fmul (Finite m e) c =
     (if 0 \<le> e then round_double (m * c * 2 ^ nat e) 1 else round_double (m * c) (2 ^ nat (- e)))"

text \<open>\<^verbatim>\<open>int(x)\<close> on a float: truncation; \<^verbatim>\<open>inf\<close> raises \<^verbatim>\<open>OverflowError\<close>.\<close>

fun py_int :: "pyfloat \<Rightarrow> error + int" where
  "py_int Infinity = Inl (OverflowError ''cannot convert float infinity to integer'')"
| "py_int (Finite m e) = Inr (if 0 \<le> e then m * 2 ^ nat e else m div 2 ^ nat (- e))"

section \<open>The unit parser\<close>

text \<open>
  \<^verbatim>\<open>UNIT_RE = re.compile(r'([0-9\.]+)\s*([KMGT]?i?B)?', re.I)\<close>

  \<open>X?Y\<close> tries \<open>X\<close> and then \<open>Y\<close>, and \<open>Y\<close> alone when that fails.
\<close>

definition is_numch :: "char \<Rightarrow> bool" where
  "is_numch c = (is_digit c \<or> c = CHR ''.'')"

definition match_B :: "string \<Rightarrow> string option" where
  "match_B s = (case s of [] \<Rightarrow> None | c # r \<Rightarrow> if py_lower c = CHR ''b'' then Some [c] else None)"

definition match_iB :: "string \<Rightarrow> string option" where
  "match_iB s =
     (case s of
        [] \<Rightarrow> None
      | c # r \<Rightarrow>
          if py_lower c = CHR ''i''
          then (case match_B r of Some u \<Rightarrow> Some (c # u) | None \<Rightarrow> match_B s)
          else match_B s)"

definition match_unit :: "string \<Rightarrow> string option" where
  "match_unit s =
     (case s of
        [] \<Rightarrow> None
      | c # r \<Rightarrow>
          if py_lower c \<in> set ''kmgt''
          then (case match_iB r of Some u \<Rightarrow> Some (c # u) | None \<Rightarrow> match_iB s)
          else match_iB s)"

text \<open>
  A match at the start of \<open>s\<close>: groups 1 and 2. The digits and the whitespace are
  taken greedily, and what follows them can match the empty string, so the first
  attempt succeeds whenever group 1 is not empty.
\<close>

definition UNIT_RE_match :: "string \<Rightarrow> (string \<times> string option) option" where
  "UNIT_RE_match s =
     (if takeWhile is_numch s = [] then None
      else Some (takeWhile is_numch s, match_unit (dropWhile is_space (dropWhile is_numch s))))"

text \<open>\<^verbatim>\<open>UNIT_RE.search(s)\<close>: the match at the leftmost position that has one.\<close>

fun UNIT_RE_search :: "string \<Rightarrow> (string \<times> string option) option" where
  "UNIT_RE_search [] = None"
| "UNIT_RE_search (c # cs) =
     (case UNIT_RE_match (c # cs) of Some m \<Rightarrow> Some m | None \<Rightarrow> UNIT_RE_search cs)"

definition human_to_bytes :: "string \<Rightarrow> error + int" where
  "human_to_bytes s =
     (if s = [] then Inr 0
      else case UNIT_RE_search s of
        None \<Rightarrow> (case py_int_str s of Some n \<Rightarrow> Inr n | None \<Rightarrow> Inr 0)
      | Some (g1, g2) \<Rightarrow>
          (case py_float g1 of
             Inl e \<Rightarrow> Inl e
           | Inr val \<Rightarrow>
               let unit = upper (case g2 of Some u \<Rightarrow> u | None \<Rightarrow> [])
               in if CHR ''K'' \<in> set unit then py_int (fmul val 1024)
                  else if CHR ''M'' \<in> set unit then py_int (fmul val (1024 ^ 2))
                  else if CHR ''G'' \<in> set unit then py_int (fmul val (1024 ^ 3))
                  else if CHR ''T'' \<in> set unit then py_int (fmul val (1024 ^ 4))
                  else py_int val))"

section \<open>The progress line pattern\<close>

text \<open>
  \<^verbatim>\<open>PROGRESS_RE = re.compile(r'\[#([0-9a-f]+)\s+([0-9\.\w]+)\/([0-9\.\w]+)\(([0-9]+)%\)\s+CN:([0-9]+)\s+DL:([0-9\.\w]+)\s+ETA:([^\]]+)\]', re.I)\<close>

  Every repetition of the pattern is followed by something its class excludes, so
  taking each run as long as it goes is the only way to match.
\<close>

definition is_hex :: "char \<Rightarrow> bool" where
  "is_hex c = (c \<in> set ''0123456789abcdefABCDEF'')"

definition is_tok :: "char \<Rightarrow> bool" where
  "is_tok c = (is_digit c \<or> c = CHR ''.'' \<or> is_word c)"

text \<open>\<open>[class]+\<close>: the run and what follows it.\<close>

definition take_class :: "(char \<Rightarrow> bool) \<Rightarrow> string \<Rightarrow> (string \<times> string) option" where
  "take_class P s = (if takeWhile P s = [] then None else Some (takeWhile P s, dropWhile P s))"

text \<open>Literal text, letters in either case: what follows it.\<close>

fun lit :: "string \<Rightarrow> string \<Rightarrow> string option" where
  "lit [] s = Some s"
| "lit (p # ps) [] = None"
| "lit (p # ps) (c # cs) = (if py_lower c = py_lower p then lit ps cs else None)"

record progress_match =
  group1 :: string
  group2 :: string
  group3 :: string
  group4 :: string
  group5 :: string
  group6 :: string
  group7 :: string

definition PROGRESS_RE_match :: "string \<Rightarrow> progress_match option" where
  "PROGRESS_RE_match s0 =
     do {
       s1 \<leftarrow> lit ''[#'' s0;
       (g1, s2) \<leftarrow> take_class is_hex s1;
       (w1, s3) \<leftarrow> take_class is_space s2;
       (g2, s4) \<leftarrow> take_class is_tok s3;
       s5 \<leftarrow> lit ''/'' s4;
       (g3, s6) \<leftarrow> take_class is_tok s5;
       s7 \<leftarrow> lit ''('' s6;
       (g4, s8) \<leftarrow> take_class is_digit s7;
       s9 \<leftarrow> lit ''%)'' s8;
       (w2, s10) \<leftarrow> take_class is_space s9;
       s11 \<leftarrow> lit ''CN:'' s10;
       (g5, s12) \<leftarrow> take_class is_digit s11;
       (w3, s13) \<leftarrow> take_class is_space s12;
       s14 \<leftarrow> lit ''DL:'' s13;
       (g6, s15) \<leftarrow> take_class is_tok s14;
       (w4, s16) \<leftarrow> take_class is_space s15;
       s17 \<leftarrow> lit ''ETA:'' s16;
       (g7, s18) \<leftarrow> take_class (\<lambda>c. c \<noteq> CHR '']'') s17;
       s19 \<leftarrow> lit '']'' s18;
       Some \<lparr>group1 = g1, group2 = g2, group3 = g3, group4 = g4,
             group5 = g5, group6 = g6, group7 = g7\<rparr>
     }"

text \<open>\<^verbatim>\<open>PROGRESS_RE.search(line)\<close>.\<close>

fun PROGRESS_RE_search :: "string \<Rightarrow> progress_match option" where
  "PROGRESS_RE_search [] = None"
| "PROGRESS_RE_search (c # cs) =
     (case PROGRESS_RE_match (c # cs) of Some m \<Rightarrow> Some m | None \<Rightarrow> PROGRESS_RE_search cs)"

section \<open>The download task\<close>

text \<open>
  The options dictionary, with the keys and the value types that
  \<^verbatim>\<open>_add_task\<close> gives it; \<open>None\<close> is an absent key. Field \<open>opt_k\<close> is the key
  \<open>k\<close>, with \<open>_\<close> for \<open>-\<close>.
\<close>

record options =
  opt_continue :: "bool option"
  opt_file_allocation :: "string option"
  opt_split :: "int option"
  opt_max_connection_per_server :: "int option"
  opt_max_tries :: "int option"
  opt_retry_wait :: "int option"
  opt_max_download_limit :: "string option"
  opt_max_upload_limit :: "string option"
  opt_referer :: "string option"
  opt_user_agent :: "string option"
  opt_header :: "string option"
  opt_extra_args :: "string option"

text \<open>
  A \<^verbatim>\<open>subprocess.Popen\<close> object and the child behind it: the argument vector,
  what \<^verbatim>\<open>poll()\<close> answers (\<open>None\<close> while the child runs, its exit code after),
  and how many times \<^verbatim>\<open>terminate()\<close> has signalled it.
\<close>

record popen =
  args :: "string list"
  returncode :: "int option"
  terminated :: nat

record task =
  url :: string
  out_dir :: string
  out_name :: string
  options :: options
  process :: "popen option"
  gid :: "string option"
  progress :: int
  have_bytes :: int
  total_bytes :: int
  dl_speed :: string
  eta :: string
  connections :: int
  status :: string
  log_lines :: "string list"
  stdout_thread :: bool
  stop_flag :: bool

text \<open>
  What the task sees of its surroundings: the clock reading
  \<^verbatim>\<open>time.strftime('%Y-%m-%d %H:%M:%S')\<close>, the working directory, the directories
  that exist, the error with which \<^verbatim>\<open>os.makedirs\<close>, \<^verbatim>\<open>Popen\<close>,
  \<^verbatim>\<open>Thread.start\<close> and \<^verbatim>\<open>terminate\<close> fail when they do, and the argument vector
  of every child spawned so far. The surroundings change between the steps of the
  program, not within one.
\<close>

record world =
  now :: string
  cwd :: string
  dirs :: "string list"
  makedirs_error :: "string option"
  popen_error :: "string option"
  thread_error :: "string option"
  terminate_error :: "string option"
  spawned :: "string list list"

definition new_task :: "world \<Rightarrow> string \<Rightarrow> string \<Rightarrow> string \<Rightarrow> options \<Rightarrow> task" where
  "new_task w u dir name opts =
     \<lparr>url = strip u,
      out_dir = (if dir = [] then cwd w else dir),
      out_name = name,
      options = opts,
      process = None,
      gid = None,
      progress = 0,
      have_bytes = 0,
      total_bytes = 0,
      dl_speed = [],
      eta = [],
      connections = 0,
      status = ''Waiting...'',
      log_lines = [],
      stdout_thread = False,
      stop_flag = False\<rparr>"

definition log :: "world \<Rightarrow> string \<Rightarrow> task \<Rightarrow> task" where
  "log w message t = t\<lparr>log_lines := log_lines t @ [''['' @ now w @ ''] '' @ message]\<rparr>"

subsection \<open>The command builder\<close>

text \<open>\<^verbatim>\<open>sep.join(xs)\<close>.\<close>

fun join :: "string \<Rightarrow> string list \<Rightarrow> string" where
  "join sep [] = []"
| "join sep [x] = x"
| "join sep (x # y # ys) = x @ sep @ join sep (y # ys)"

text \<open>\<^verbatim>\<open>s.splitlines()\<close>: the lines of \<open>s\<close>, their line ends dropped.\<close>

definition is_linebreak :: "char \<Rightarrow> bool" where
  "is_linebreak c = (c \<in> set [CHR 0x0A, CHR 0x0B, CHR 0x0C, CHR 0x0D, CHR 0x1C, CHR 0x1D, CHR 0x1E])"

fun splitlines_from :: "string \<Rightarrow> string \<Rightarrow> string list" where
  "splitlines_from cur [] = (if cur = [] then [] else [cur])"
| "splitlines_from cur [c] = (if is_linebreak c then [cur] else [cur @ [c]])"
| "splitlines_from cur (c # d # cs) =
     (if c = CHR 0x0D \<and> d = CHR 0x0A then cur # splitlines_from [] cs
      else if is_linebreak c then cur # splitlines_from [] (d # cs)
      else splitlines_from (cur @ [c]) (d # cs))"

definition splitlines :: "string \<Rightarrow> string list" where
  "splitlines s = splitlines_from [] s"

text \<open>\<^verbatim>\<open>s.split()\<close>: the runs of \<open>s\<close> between whitespace.\<close>

fun split_from :: "string \<Rightarrow> string \<Rightarrow> string list" where
  "split_from cur [] = (if cur = [] then [] else [cur])"
| "split_from cur (c # cs) =
     (if is_space c then (if cur = [] then split_from [] cs else cur # split_from [] cs)
      else split_from (cur @ [c]) cs)"

definition split_ws :: "string \<Rightarrow> string list" where
  "split_ws s = split_from [] s"

text \<open>The \<^verbatim>\<open>--header=\<close> arguments: one for each line that is not blank.\<close>

definition header_args :: "string \<Rightarrow> string list" where
  "header_args h = map (\<lambda>l. ''--header='' @ l) (filter (\<lambda>l. l \<noteq> []) (map strip (splitlines h)))"

text \<open>
  An argument that is added only when its string option is present and not empty
  (\<^verbatim>\<open>if self.options.get(k)\<close>).
\<close>

definition opt_arg :: "string \<Rightarrow> string option \<Rightarrow> string list" where
  "opt_arg prefix v = (case v of None \<Rightarrow> [] | Some x \<Rightarrow> if x = [] then [] else [prefix @ x])"

text \<open>
  \<^verbatim>\<open>build_command\<close>. The tokenizer \<^verbatim>\<open>shlex.split\<close> of the standard library is the
  parameter \<open>shlex_split\<close> (\<open>None\<close> when it raises). The result is the argument
  vector and the surroundings, where the output directory now exists; a failing
  \<^verbatim>\<open>os.makedirs\<close> raises out of the function.
\<close>

definition build_command ::
  "(string \<Rightarrow> string list option) \<Rightarrow> string \<Rightarrow> world \<Rightarrow> task \<Rightarrow> error + (string list \<times> world)"
where
  "build_command shlex_split aria2_path w t =
     (case (if out_dir t \<in> set (dirs w) then None else makedirs_error w) of
        Some m \<Rightarrow> Inl (OSError m)
      | None \<Rightarrow>
        let w' = (if out_dir t \<in> set (dirs w) then w else w\<lparr>dirs := dirs w @ [out_dir t]\<rparr>);
            opts = options t;
            allocation = (case opt_file_allocation opts of None \<Rightarrow> ''none'' | Some a \<Rightarrow> a);
            split = (case opt_split opts of None \<Rightarrow> 4 | Some n \<Rightarrow> n);
            max_conn = (case opt_max_connection_per_server opts of None \<Rightarrow> split | Some n \<Rightarrow> n);
            extra_args = (case opt_extra_args opts of None \<Rightarrow> [] | Some x \<Rightarrow> x)
        in Inr
          ([aria2_path]
           @ (if (case opt_continue opts of None \<Rightarrow> True | Some b \<Rightarrow> b) then [''-c''] else [])
           @ [''--file-allocation='' @ allocation]
           @ [''--split='' @ str_of_int split,
              ''--max-connection-per-server='' @ str_of_int max_conn]
           @ (case opt_max_tries opts of None \<Rightarrow> [] | Some n \<Rightarrow> [''--max-tries='' @ str_of_int n])
           @ (case opt_retry_wait opts of None \<Rightarrow> [] | Some n \<Rightarrow> [''--retry-wait='' @ str_of_int n])
           @ opt_arg ''--max-download-limit='' (opt_max_download_limit opts)
           @ opt_arg ''--max-upload-limit='' (opt_max_upload_limit opts)
           @ opt_arg ''--referer='' (opt_referer opts)
           @ opt_arg ''--user-agent='' (opt_user_agent opts)
           @ (case opt_header opts of None \<Rightarrow> [] | Some h \<Rightarrow> header_args h)
           @ [''--allow-overwrite=true'', ''--auto-file-renaming=false'']
           @ (if out_name t \<noteq> [] then [''-d'', out_dir t, ''-o'', out_name t]
              else [''-d'', out_dir t])
           @ (if extra_args \<noteq> []
              then (case shlex_split extra_args of Some ts \<Rightarrow> ts | None \<Rightarrow> split_ws extra_args)
              else [])
           @ [url t],
           w'))"

subsection \<open>Lifecycle operations\<close>

text \<open>\<^verbatim>\<open>self.process and self.process.poll() is None\<close>.\<close>

definition alive :: "task \<Rightarrow> bool" where
  "alive t = (case process t of None \<Rightarrow> False | Some p \<Rightarrow> returncode p = None)"

text \<open>\<^verbatim>\<open>self.process.terminate()\<close>, where it does not raise.\<close>

definition terminate :: "task \<Rightarrow> task" where
  "terminate t = t\<lparr>process := map_option (\<lambda>p. p\<lparr>terminated := terminated p + 1\<rparr>) (process t)\<rparr>"

text \<open>
  \<^verbatim>\<open>start\<close>. A \<^verbatim>\<open>Popen\<close> object is true whatever the state of its child, so the
  first test is whether the handle is set. An error of \<^verbatim>\<open>build_command\<close> is raised
  to the caller, before anything is written; after that every exception is caught.
\<close>

definition start ::
  "(string \<Rightarrow> string list option) \<Rightarrow> string \<Rightarrow> world \<Rightarrow> task \<Rightarrow> error option \<times> task \<times> world"
where
  "start shlex_split aria2_path w t =
     (if process t \<noteq> None then (None, log w ''Task is already in progress.'' t, w)
      else case build_command shlex_split aria2_path w t of
        Inl e \<Rightarrow> (Some e, t, w)
      | Inr (cmd, w1) \<Rightarrow>
          let t1 = log w1 (''Start command: '' @ join '' '' cmd) t
          in case popen_error w1 of
               Some m \<Rightarrow> (None, (log w1 (''Failed to start: '' @ m) t1)\<lparr>status := ''Error''\<rparr>, w1)
             | None \<Rightarrow>
                 let t2 = t1\<lparr>process := Some \<lparr>args = cmd, returncode = None, terminated = 0\<rparr>,
                             status := ''Downloading...'',
                             stop_flag := False,
                             stdout_thread := True\<rparr>;
                     w2 = w1\<lparr>spawned := spawned w1 @ [cmd]\<rparr>
                 in case thread_error w2 of
                      Some m \<Rightarrow>
                        (None, (log w2 (''Failed to start: '' @ m) t2)\<lparr>status := ''Error''\<rparr>, w2)
                    | None \<Rightarrow> (None, t2, w2))"

definition pause :: "world \<Rightarrow> task \<Rightarrow> task" where
  "pause w t =
     (if alive t
      then (case terminate_error w of
              Some m \<Rightarrow> log w (''Failed to pause: '' @ m) t
            | None \<Rightarrow> (log w ''Download paused'' (terminate t))\<lparr>status := ''Paused'', stop_flag := True\<rparr>)
      else t)"

definition stop :: "world \<Rightarrow> task \<Rightarrow> task" where
  "stop w t =
     (let t' = (if alive t
                then (case terminate_error w of
                        Some m \<Rightarrow> log w (''Failed to stop: '' @ m) t
                      | None \<Rightarrow> (log w ''Download stopped'' (terminate t))\<lparr>stop_flag := True\<rparr>)
                else t)
      in t'\<lparr>status := ''Stopped''\<rparr>)"

definition resume ::
  "(string \<Rightarrow> string list option) \<Rightarrow> string \<Rightarrow> world \<Rightarrow> task \<Rightarrow> error option \<times> task \<times> world"
where
  "resume shlex_split aria2_path w t =
     (if status t = ''Completed''
      then (None, log w ''Task already completed, no need to resume'' t, w)
      else if alive t
      then (None, log w ''Task is still running, cannot resume'' t, w)
      else start shlex_split aria2_path w
             ((log w ''Resuming download (resume broken download)'' t)
                \<lparr>options := (options t)\<lparr>opt_continue := Some True\<rparr>\<rparr>))"

subsection \<open>The background reader\<close>

text \<open>\<^verbatim>\<open>line.rstrip('\n')\<close>.\<close>

definition rstrip_newline :: "string \<Rightarrow> string" where
  "rstrip_newline s = rev (dropWhile (\<lambda>c. c = CHR 0x0A) (rev s))"

definition completion_keywords :: "string list" where
  "completion_keywords = [''download complete'', ''completed'', ''download finished'']"

text \<open>
  \<^verbatim>\<open>_parse_progress\<close>. The fields are assigned one after the other, so an exception
  of \<^verbatim>\<open>human_to_bytes\<close> leaves the earlier ones written.
\<close>

definition parse_progress :: "world \<Rightarrow> string \<Rightarrow> task \<Rightarrow> task" where
  "parse_progress w line t =
     (let t1 =
        (case PROGRESS_RE_search line of
           None \<Rightarrow> t
         | Some m \<Rightarrow>
             let t' = t\<lparr>gid := Some (group1 m),
                        progress := digits_val 0 (group4 m),
                        connections := digits_val 0 (group5 m),
                        dl_speed := group6 m,
                        eta := strip (group7 m)\<rparr>
             in case human_to_bytes (group2 m) of
                  Inl e \<Rightarrow> log w (''Failed to parse progress: '' @ str_error e) t'
                | Inr have_n \<Rightarrow>
                    (case human_to_bytes (group3 m) of
                       Inl e \<Rightarrow>
                         log w (''Failed to parse progress: '' @ str_error e) (t'\<lparr>have_bytes := have_n\<rparr>)
                     | Inr total_n \<Rightarrow> t'\<lparr>have_bytes := have_n, total_bytes := total_n\<rparr>))
      in if list_ex (\<lambda>keyword. contains keyword (lower line)) completion_keywords
         then t1\<lparr>status := ''Completed''\<rparr>
         else t1)"

text \<open>
  The loop of \<^verbatim>\<open>_read_output\<close> over the lines that the child writes before its
  output ends; it stops at the first line that finds the stop flag raised.
\<close>

fun read_lines :: "world \<Rightarrow> string list \<Rightarrow> task \<Rightarrow> task" where
  "read_lines w [] t = t"
| "read_lines w (line # rest) t =
     (if stop_flag t then t
      else read_lines w rest (parse_progress w (rstrip_newline line) (log w (rstrip_newline line) t)))"

text \<open>
  \<^verbatim>\<open>self.process.wait()\<close>: a child that still runs exits, with the code \<open>rc\<close>.
  The same function is the step of the surroundings in which the child exits.
\<close>

definition wait :: "int \<Rightarrow> task \<Rightarrow> task" where
  "wait rc t =
     t\<lparr>process :=
         map_option (\<lambda>p. case returncode p of None \<Rightarrow> p\<lparr>returncode := Some rc\<rparr> | Some c \<Rightarrow> p)
           (process t)\<rparr>"

text \<open>
  \<^verbatim>\<open>_read_output\<close>, run on the lines \<open>lines\<close> of the child's output and on the exit
  code \<open>rc\<close> of a child that has not exited before.
\<close>

definition read_output :: "string list \<Rightarrow> int \<Rightarrow> world \<Rightarrow> task \<Rightarrow> task" where
  "read_output lines rc w t =
     (if process t = None then t
      else
        let t1 = wait rc (read_lines w lines t)
        in if status t1 = ''Downloading'' \<and> \<not> stop_flag t1
           then
             (let return_code = (case process t1 of None \<Rightarrow> None | Some p \<Rightarrow> returncode p)
              in if return_code = Some 0
                 then log w ''Download completed'' (t1\<lparr>status := ''Completed''\<rparr>)
                 else log w (''Download error, return code: ''
                             @ (case return_code of None \<Rightarrow> ''None'' | Some c \<Rightarrow> str_of_int c))
                        (t1\<lparr>status := ''Error''\<rparr>))
           else t1)"

section \<open>The application and its task list\<close>

text \<open>
  Of \<^verbatim>\<open>Aria2DownloaderApp\<close>: the task list, the selected index, the warnings
  shown by \<^verbatim>\<open>messagebox.showwarning\<close> and the lines of the log box. The tree view,
  which shows the task list, is left out. The entry fields that \<^verbatim>\<open>_add_task\<close>
  reads are the record \<open>form\<close>.
\<close>

record form =
  url_entry :: string
  output_dir_var :: string
  filename_entry :: string
  resume_var :: bool
  split_var :: int
  connections_var :: int
  retries_var :: int
  dl_limit_var :: string
  user_agent_var :: string
  referer_var :: string

record app =
  tasks :: "task list"
  selected_task_index :: "nat option"
  aria2_path_var :: string
  warnings :: "string list"
  log_text :: "string list"

definition showwarning :: "string \<Rightarrow> app \<Rightarrow> app" where
  "showwarning message a = a\<lparr>warnings := warnings a @ [message]\<rparr>"

definition app_log :: "world \<Rightarrow> string \<Rightarrow> app \<Rightarrow> app" where
  "app_log w message a =
     a\<lparr>log_text := log_text a @ [''['' @ now w @ ''] '' @ message @ [CHR 0x0A]]\<rparr>"

definition add_task :: "world \<Rightarrow> form \<Rightarrow> app \<Rightarrow> app" where
  "add_task w f a =
     (let u = strip (url_entry f)
      in if u = [] then showwarning ''Please enter a download URL'' a
         else
           let opts = \<lparr>opt_continue = Some (resume_var f),
                       opt_file_allocation = Some ''none'',
                       opt_split = Some (split_var f),
                       opt_max_connection_per_server = Some (connections_var f),
                       opt_max_tries = Some (retries_var f),
                       opt_retry_wait = None,
                       opt_max_download_limit = Some (strip (dl_limit_var f)),
                       opt_max_upload_limit = None,
                       opt_referer = Some (strip (referer_var f)),
                       opt_user_agent = Some (strip (user_agent_var f)),
                       opt_header = Some [],
                       opt_extra_args = Some []\<rparr>;
               t = new_task w u (strip (output_dir_var f)) (strip (filename_entry f)) opts
           in app_log w (''Task added: '' @ u) (a\<lparr>tasks := tasks a @ [t]\<rparr>))"

text \<open>
  The button handlers. \<^verbatim>\<open>self.tasks[i]\<close> raises \<^verbatim>\<open>IndexError\<close> out of range.
  \<^verbatim>\<open>_start_task\<close> and \<^verbatim>\<open>_resume_task\<close> run the operation in a thread of its own,
  where an exception ends that thread only; here the operation runs at once.
\<close>

definition index_error :: error where
  "index_error = IndexError ''list index out of range''"

definition start_task ::
  "(string \<Rightarrow> string list option) \<Rightarrow> world \<Rightarrow> app \<Rightarrow> error + (app \<times> world)"
where
  "start_task shlex_split w a =
     (case selected_task_index a of
        None \<Rightarrow> Inr (showwarning ''Please select a task first'' a, w)
      | Some i \<Rightarrow>
          if length (tasks a) \<le> i then Inl index_error
          else
            let t = tasks a ! i;
                (e, t', w') = start shlex_split (aria2_path_var a) w t
            in Inr (app_log w' (''Starting task: '' @ url t) (a\<lparr>tasks := (tasks a)[i := t']\<rparr>), w'))"

definition pause_task :: "world \<Rightarrow> app \<Rightarrow> error + app" where
  "pause_task w a =
     (case selected_task_index a of
        None \<Rightarrow> Inr (showwarning ''Please select a task first'' a)
      | Some i \<Rightarrow>
          if length (tasks a) \<le> i then Inl index_error
          else
            let t = tasks a ! i
            in Inr (app_log w (''Pausing task: '' @ url t) (a\<lparr>tasks := (tasks a)[i := pause w t]\<rparr>)))"

definition resume_task ::
  "(string \<Rightarrow> string list option) \<Rightarrow> world \<Rightarrow> app \<Rightarrow> error + (app \<times> world)"
where
  "resume_task shlex_split w a =
     (case selected_task_index a of
        None \<Rightarrow> Inr (showwarning ''Please select a task first'' a, w)
      | Some i \<Rightarrow>
          if length (tasks a) \<le> i then Inl index_error
          else
            let t = tasks a ! i;
                (e, t', w') = resume shlex_split (aria2_path_var a) w t
            in Inr (app_log w' (''Resuming task: '' @ url t) (a\<lparr>tasks := (tasks a)[i := t']\<rparr>), w'))"

definition stop_task :: "world \<Rightarrow> app \<Rightarrow> error + app" where
  "stop_task w a =
     (case selected_task_index a of
        None \<Rightarrow> Inr (showwarning ''Please select a task first'' a)
      | Some i \<Rightarrow>
          if length (tasks a) \<le> i then Inl index_error
          else
            let t = tasks a ! i
            in Inr (app_log w (''Stopping task: '' @ url t) (a\<lparr>tasks := (tasks a)[i := stop w t]\<rparr>)))"

text \<open>\<^verbatim>\<open>self.tasks.pop(i)\<close>, for \<open>i\<close> in range.\<close>

definition pop :: "nat \<Rightarrow> 'a list \<Rightarrow> 'a list" where
  "pop i xs = take i xs @ drop (Suc i) xs"

definition delete_task :: "world \<Rightarrow> app \<Rightarrow> error + app" where
  "delete_task w a =
     (case selected_task_index a of
        None \<Rightarrow> Inr (showwarning ''Please select a task first'' a)
      | Some i \<Rightarrow>
          if length (tasks a) \<le> i then Inl index_error
          else
            let t = tasks a ! i
            in if status t = ''Downloading''
               then Inr (showwarning ''Please stop running tasks first'' a)
               else Inr (app_log w (''Task deleted: '' @ url t)
                           (a\<lparr>tasks := pop i (tasks a), selected_task_index := None\<rparr>)))"

section \<open>Runs of one task\<close>

text \<open>
  The steps that can happen to a task: the four lifecycle operations, a run of the
  background reader, the exit of the child, and a change of the surroundings (which
  keeps the record of the children spawned).
\<close>

datatype step =
    Start string
  | Pause
  | Stop
  | Resume string
  | Read_output "string list" int
  | Child_exit int
  | Surroundings world

fun do_step :: "(string \<Rightarrow> string list option) \<Rightarrow> step \<Rightarrow> task \<times> world \<Rightarrow> task \<times> world" where
  "do_step sh (Start aria2_path) (t, w) = snd (start sh aria2_path w t)"
| "do_step sh Pause (t, w) = (pause w t, w)"
| "do_step sh Stop (t, w) = (stop w t, w)"
| "do_step sh (Resume aria2_path) (t, w) = snd (resume sh aria2_path w t)"
| "do_step sh (Read_output lines rc) (t, w) = (read_output lines rc w t, w)"
| "do_step sh (Child_exit rc) (t, w) = (wait rc t, w)"
| "do_step sh (Surroundings w') (t, w) = (t, w'\<lparr>spawned := spawned w\<rparr>)"

fun run :: "(string \<Rightarrow> string list option) \<Rightarrow> step list \<Rightarrow> task \<times> world \<Rightarrow> task \<times> world" where
  "run sh [] s = s"
| "run sh (x # xs) s = run sh xs (do_step sh x s)"

text \<open>
  The status strings that the program assigns anywhere. \<^verbatim>\<open>"Downloading"\<close>, which
  \<^verbatim>\<open>_read_output\<close>, \<^verbatim>\<open>_delete_task\<close> and \<^verbatim>\<open>_quit_app\<close> compare the status with, is
  not one of them: \<^verbatim>\<open>start\<close> assigns \<^verbatim>\<open>"Downloading..."\<close>.
\<close>

definition lifecycle_status :: "string \<Rightarrow> bool" where
  "lifecycle_status s =
     (s \<in> set [''Waiting...'', ''Downloading...'', ''Paused'', ''Stopped'', ''Completed'', ''Error''])"

text \<open>
  The power of 1024 that a unit letter stands for, and what it means for a double
  to be exactly the integer \<open>x\<close>.
\<close>

definition unit_power :: "char \<Rightarrow> nat" where
  "unit_power c =
     (if py_lower c = CHR ''k'' then 1
      else if py_lower c = CHR ''m'' then 2
      else if py_lower c = CHR ''g'' then 3
      else if py_lower c = CHR ''t'' then 4
      else 0)"

definition float_is :: "pyfloat \<Rightarrow> int \<Rightarrow> bool" where
  "float_is f x =
     (case f of
        Infinity \<Rightarrow> False
      | Finite m e \<Rightarrow> if 0 \<le> e then m * 2 ^ nat e = x else m = x * 2 ^ nat (- e))"

section \<open>Example inputs\<close>

text \<open>
  A tokenizer that splits at whitespace, surroundings in which nothing fails, the
  task for \<^verbatim>\<open>http://example/file.bin\<close> with a split count of 4, and the
  application after that task has been added through the form and selected.
\<close>

definition example_shlex :: "string \<Rightarrow> string list option" where
  "example_shlex s = Some (split_ws s)"

definition example_world :: world where
  "example_world =
     \<lparr>now = ''2024-01-01 00:00:00'', cwd = ''/home/user'', dirs = [''/tmp''],
      makedirs_error = None, popen_error = None, thread_error = None,
      terminate_error = None, spawned = []\<rparr>"

definition example_options :: options where
  "example_options =
     \<lparr>opt_continue = None, opt_file_allocation = None, opt_split = Some 4,
      opt_max_connection_per_server = None, opt_max_tries = None, opt_retry_wait = None,
      opt_max_download_limit = None, opt_max_upload_limit = None, opt_referer = None,
      opt_user_agent = None, opt_header = None, opt_extra_args = None\<rparr>"

definition example_task :: task where
  "example_task = new_task example_world ''http://example/file.bin'' ''/tmp'' [] example_options"

definition example_form :: form where
  "example_form =
     \<lparr>url_entry = ''http://example/file.bin'', output_dir_var = ''/tmp'', filename_entry = [],
      resume_var = True, split_var = 4, connections_var = 16, retries_var = 5,
      dl_limit_var = [], user_agent_var = [], referer_var = []\<rparr>"

definition example_app :: app where
  "example_app =
     (add_task example_world example_form
        \<lparr>tasks = [], selected_task_index = None, aria2_path_var = ''aria2c'',
         warnings = [], log_text = []\<rparr>)\<lparr>selected_task_index := Some 0\<rparr>"

section \<open>Properties of the unit parser\<close>

subsection \<open>Whole numbers as doubles\<close>

text \<open>
  A whole number below \<open>2 ^ 53\<close> is a double, and so is its product with a power
  of two, as long as the result stays in the range of the doubles.
\<close>

lemma bit_length_bounds:
  "0 < n \<Longrightarrow> 2 ^ (bit_length n - 1) \<le> n \<and> n < 2 ^ bit_length n"
proof (induction n rule: bit_length.induct)
  case (1 n)
  show ?case
  proof (cases "n = 1")
    case True
    then show ?thesis
      by (simp add: bit_length.simps [of 1] bit_length.simps [of 0])
  next
    case False
    with "1.prems" have h: "0 < n div 2" by simp
    from "1.prems" have bl: "bit_length n = Suc (bit_length (n div 2))"
      by (simp add: bit_length.simps [of n])
    from h have pos: "0 < bit_length (n div 2)"
      by (simp add: bit_length.simps [of "n div 2"])
    from "1.IH" "1.prems" h
    have ih: "2 ^ (bit_length (n div 2) - 1) \<le> n div 2" "n div 2 < 2 ^ bit_length (n div 2)"
      by simp_all
    define q where "q = (2::int) ^ (bit_length (n div 2) - 1)"
    from pos have e: "(2::int) ^ bit_length (n div 2) = 2 * q"
      by (cases "bit_length (n div 2)") (simp_all add: q_def)
    have d: "2 * (n div 2) \<le> n" "n < 2 * (n div 2) + 2"
      by presburger+
    from ih e d have "2 * q \<le> n" "n < 2 * (2 * q)"
      by (simp_all add: q_def)
    with e show ?thesis
      unfolding bl by simp
  qed
qed

lemma bit_length_pos: "0 < n \<Longrightarrow> 0 < bit_length n"
  by (simp add: bit_length.simps [of n])

lemma bit_length_unique:
  assumes "(2::int) ^ k \<le> n" and "n < 2 ^ Suc k"
  shows "bit_length n = Suc k"
proof -
  from assms(1) have pos: "0 < n"
    by (smt (verit) zero_less_power)
  note b = bit_length_bounds [OF pos]
  have "bit_length n - 1 < Suc k"
  proof (rule ccontr)
    assume "\<not> bit_length n - 1 < Suc k"
    then have "Suc k \<le> bit_length n - 1" by simp
    then have "(2::int) ^ Suc k \<le> 2 ^ (bit_length n - 1)"
      by (rule power_increasing) simp
    with b assms(2) show False by linarith
  qed
  moreover have "k < bit_length n"
  proof (rule ccontr)
    assume "\<not> k < bit_length n"
    then have "bit_length n \<le> k" by simp
    then have "(2::int) ^ bit_length n \<le> 2 ^ k"
      by (rule power_increasing) simp
    with b assms(1) show False by linarith
  qed
  ultimately show ?thesis by simp
qed

lemma bit_length_shift:
  assumes "0 < n"
  shows "bit_length (n * 2 ^ j) = bit_length n + j"
proof -
  from bit_length_pos [OF assms] obtain k where k: "bit_length n = Suc k"
    by (cases "bit_length n") simp_all
  from bit_length_bounds [OF assms] k have "2 ^ k \<le> n" "n < 2 ^ Suc k" by simp_all
  then have "2 ^ (k + j) \<le> n * 2 ^ j" "n * 2 ^ j < 2 ^ Suc (k + j)"
    by (simp_all add: power_add)
  from bit_length_unique [OF this] k show ?thesis by simp
qed

lemma bit_length_power: "bit_length (2 ^ j) = Suc j"
  using bit_length_unique [of j "2 ^ j"] by simp

lemma bit_length_le:
  assumes "0 < n" and "n < 2 ^ k"
  shows "bit_length n \<le> k"
proof (rule ccontr)
  assume "\<not> bit_length n \<le> k"
  then have "k \<le> bit_length n - 1" by simp
  then have "(2::int) ^ k \<le> 2 ^ (bit_length n - 1)"
    by (rule power_increasing) simp
  with bit_length_bounds [OF assms(1)] assms(2) show False by linarith
qed

lemma floor_log2_shift:
  assumes "0 < x"
  shows "floor_log2 (x * 2 ^ j) (2 ^ j) = int (bit_length x) - 1"
proof -
  from bit_length_pos [OF assms] obtain k where k: "bit_length x = Suc k"
    by (cases "bit_length x") simp_all
  from bit_length_bounds [OF assms] k have "2 ^ k \<le> x" by simp
  then have "(2::int) ^ j * 2 ^ k \<le> x * 2 ^ j" by simp
  then show ?thesis
    by (simp add: floor_log2_def bit_length_shift [OF assms] bit_length_power k)
qed

lemma round_half_even_multiple: "0 < b \<Longrightarrow> round_half_even (q * b) b = q"
  by (simp add: round_half_even_def)

lemma round_double_exact:
  assumes "0 < a" and "a < 2 ^ 53" and "s \<le> 900"
  shows "float_is (round_double (a * 2 ^ s * 2 ^ j) (2 ^ j)) (a * 2 ^ s)"
proof -
  let ?x = "a * 2 ^ s"
  from assms(1) have x: "0 < ?x" by simp
  have bl: "bit_length ?x = bit_length a + s"
    by (rule bit_length_shift [OF assms(1)])
  from bit_length_le [OF assms(1,2)] have le: "bit_length a \<le> 53" .
  from bit_length_pos [OF assms(1)] have ge: "1 \<le> bit_length a" by simp
  define e where "e = int (bit_length a) + int s - 53"
  have fl: "floor_log2 (?x * 2 ^ j) (2 ^ j) - 52 = e"
    by (simp add: floor_log2_shift [OF x] bl e_def)
  from ge have emax: "max e (- 1074) = e" by (simp add: e_def)
  have nz: "?x * 2 ^ j \<noteq> 0" using assms(1) by simp
  show ?thesis
  proof (cases "0 \<le> e")
    case True
    with le have es: "nat e \<le> s" by (simp add: e_def)
    then have split: "(2::int) ^ s = 2 ^ (s - nat e) * 2 ^ nat e"
      by (simp flip: power_add)
    have eq: "?x * 2 ^ j = (a * 2 ^ (s - nat e)) * (2 ^ j * 2 ^ nat e)"
      by (subst split) simp
    have m: "round_half_even (?x * 2 ^ j) (2 ^ j * 2 ^ nat e) = a * 2 ^ (s - nat e)"
      unfolding eq by (rule round_half_even_multiple) simp
    have val: "a * 2 ^ (s - nat e) * 2 ^ nat e = ?x"
      by (subst split) simp
    from assms(2) have "?x < 2 ^ 53 * 2 ^ s" by simp
    also have "\<dots> = 2 ^ (53 + s)" by (simp add: power_add)
    also from assms(3) have "\<dots> \<le> (2::int) ^ 1024"
      by (intro power_increasing) simp_all
    finally have no: "\<not> 2 ^ 1024 \<le> ?x" by simp
    show ?thesis
      unfolding round_double_def fl emax Let_def
      using nz True no by (simp add: float_is_def m val)
  next
    case False
    have eq: "?x * 2 ^ j * 2 ^ nat (- e) = (?x * 2 ^ nat (- e)) * 2 ^ j"
      by simp
    have m: "round_half_even (?x * 2 ^ j * 2 ^ nat (- e)) (2 ^ j) = ?x * 2 ^ nat (- e)"
      unfolding eq by (rule round_half_even_multiple) simp
    show ?thesis
      unfolding round_double_def fl emax Let_def
      using nz False by (simp add: float_is_def m)
  qed
qed

lemma float_is_zero: "float_is (round_double 0 b) 0"
  by (simp add: round_double_def float_is_def)

lemma round_double_whole:
  assumes "0 \<le> n" and "n < 2 ^ 53"
  shows "float_is (round_double n 1) n"
proof (cases "n = 0")
  case True
  then show ?thesis by (simp add: float_is_zero)
next
  case False
  with assms(1) have "0 < n" by simp
  from round_double_exact [OF this assms(2), of 0 0] show ?thesis by simp
qed

lemma fmul_exact:
  assumes "float_is f n" and "0 \<le> n" and "n < 2 ^ 53" and "s \<le> 900"
  shows "float_is (fmul f (2 ^ s)) (n * 2 ^ s)"
proof (cases f)
  case Infinity
  with assms(1) show ?thesis by (simp add: float_is_def)
next
  case (Finite m e)
  show ?thesis
  proof (cases "n = 0")
    case True
    with assms(1) Finite have "m = 0" by (simp add: float_is_def split: if_splits)
    with True Finite show ?thesis by (simp add: float_is_zero)
  next
    case False
    with assms(2) have pos: "0 < n" by simp
    show ?thesis
    proof (cases "0 \<le> e")
      case True
      with assms(1) Finite have "m * 2 ^ nat e = n" by (simp add: float_is_def)
      then have eq: "m * 2 ^ s * 2 ^ nat e = n * 2 ^ s" by (simp add: mult.commute mult.left_commute)
      from round_double_exact [OF pos assms(3,4), of 0] show ?thesis
        by (simp add: Finite True eq)
    next
      case False
      with assms(1) Finite have "m = n * 2 ^ nat (- e)" by (simp add: float_is_def)
      then have eq: "m * 2 ^ s = n * 2 ^ s * 2 ^ nat (- e)" by simp
      from round_double_exact [OF pos assms(3,4), of "nat (- e)"] show ?thesis
        by (simp add: Finite False eq)
    qed
  qed
qed

lemma py_int_exact: "float_is f x \<Longrightarrow> py_int f = Inr x"
  by (cases f) (auto simp: float_is_def split: if_splits)

lemma digit_val_range: "is_digit c \<Longrightarrow> 0 \<le> digit_val c \<and> digit_val c \<le> 9"
  by (auto simp: is_digit_def digit_val_def)

lemma digits_val_nonneg:
  "0 \<le> acc \<Longrightarrow> list_all is_digit ds \<Longrightarrow> 0 \<le> digits_val acc ds"
proof (induction ds arbitrary: acc)
  case Nil
  then show ?case by simp
next
  case (Cons c ds)
  from Cons.prems digit_val_range [of c] have "0 \<le> 10 * acc + digit_val c" by simp
  with Cons.IH Cons.prems show ?case by simp
qed

lemma py_float_whole:
  assumes "ds \<noteq> []" and "list_all is_digit ds"
  shows "py_float ds = Inr (round_double (digits_val 0 ds) 1)"
proof -
  from assms(2) have "\<And>x. x \<in> set ds \<Longrightarrow> is_digit x" by (simp add: list_all_iff)
  then have tw: "takeWhile is_digit ds = ds" and dw: "dropWhile is_digit ds = []" by simp_all
  from assms(1) show ?thesis by (simp add: py_float_def Let_def tw dw)
qed

lemma whole_times_power:
  assumes "ds \<noteq> []" and "list_all is_digit ds" and "digits_val 0 ds < 2 ^ 53" and "k \<le> 90"
  shows "\<exists>v. py_float ds = Inr v \<and> py_int v = Inr (digits_val 0 ds)
           \<and> py_int (fmul v (1024 ^ k)) = Inr (digits_val 0 ds * 1024 ^ k)"
proof -
  let ?n = "digits_val 0 ds"
  have n: "0 \<le> ?n" by (rule digits_val_nonneg [OF _ assms(2)]) simp
  have f: "float_is (round_double ?n 1) ?n" by (rule round_double_whole [OF n assms(3)])
  have p: "(1024::int) ^ k = 2 ^ (10 * k)" by (simp add: power_mult)
  from assms(4) have "10 * k \<le> 900" by simp
  from fmul_exact [OF f n assms(3) this]
  have "float_is (fmul (round_double ?n 1) (1024 ^ k)) (?n * 1024 ^ k)" by (simp add: p)
  with f py_float_whole [OF assms(1,2)] show ?thesis
    by (simp add: py_int_exact)
qed

subsection \<open>The pattern on a number and a unit\<close>

lemma unit_letter_cases:
  "py_lower c \<in> set ''kmgt'' \<Longrightarrow> c \<in> set ''kmgtKMGT''"
  by (auto simp: py_lower_def split: if_splits)

lemma letter_b_cases: "py_lower b = CHR ''b'' \<Longrightarrow> b \<in> set ''bB''"
  by (auto simp: py_lower_def split: if_splits)

lemma UNIT_RE_search_number:
  assumes "num \<noteq> []" and "list_all is_numch num" and "\<not> is_numch c" and "\<not> is_space c"
  shows "UNIT_RE_search (num @ c # r) = Some (num, match_unit (c # r))"
proof -
  from assms(2) have all: "\<And>x. x \<in> set num \<Longrightarrow> is_numch x"
    by (simp add: list_all_iff)
  from all assms(3) have tw: "takeWhile is_numch (num @ c # r) = num"
    and dw: "dropWhile is_numch (num @ c # r) = c # r"
    by simp_all
  from assms(1) obtain x xs where xs: "num = x # xs" by (cases num) auto
  have "UNIT_RE_match (num @ c # r) = Some (num, match_unit (c # r))"
    using assms(1,4) by (simp add: UNIT_RE_match_def tw dw)
  then show ?thesis by (simp add: xs)
qed

lemma unit_token_all:
  "\<forall>c \<in> set ''kmgtKMGT''. \<forall>i \<in> set [[], ''i'', ''I'']. \<forall>b \<in> set ''bB''.
     \<not> is_numch c \<and> \<not> is_space c
     \<and> match_unit (c # i @ [b]) = Some (c # i @ [b])
     \<and> match_unit [c] = None
     \<and> (CHR ''K'' \<in> set (upper (c # i @ [b]))) = (py_lower c = CHR ''k'')
     \<and> (CHR ''M'' \<in> set (upper (c # i @ [b]))) = (py_lower c = CHR ''m'')
     \<and> (CHR ''G'' \<in> set (upper (c # i @ [b]))) = (py_lower c = CHR ''g'')
     \<and> (CHR ''T'' \<in> set (upper (c # i @ [b]))) = (py_lower c = CHR ''t'')"
  by code_simp

lemma unit_token:
  assumes "py_lower c \<in> set ''kmgt''" and "i \<in> set [[], ''i'', ''I'']"
    and "py_lower b = CHR ''b''"
  shows "\<not> is_numch c" and "\<not> is_space c"
    and "match_unit (c # i @ [b]) = Some (c # i @ [b])"
    and "match_unit [c] = None"
    and "(CHR ''K'' \<in> set (upper (c # i @ [b]))) = (py_lower c = CHR ''k'')"
    and "(CHR ''M'' \<in> set (upper (c # i @ [b]))) = (py_lower c = CHR ''m'')"
    and "(CHR ''G'' \<in> set (upper (c # i @ [b]))) = (py_lower c = CHR ''g'')"
    and "(CHR ''T'' \<in> set (upper (c # i @ [b]))) = (py_lower c = CHR ''t'')"
proof -
  from unit_letter_cases [OF assms(1)] assms(2) letter_b_cases [OF assms(3)] unit_token_all
  have "\<not> is_numch c \<and> \<not> is_space c
     \<and> match_unit (c # i @ [b]) = Some (c # i @ [b])
     \<and> match_unit [c] = None
     \<and> (CHR ''K'' \<in> set (upper (c # i @ [b]))) = (py_lower c = CHR ''k'')
     \<and> (CHR ''M'' \<in> set (upper (c # i @ [b]))) = (py_lower c = CHR ''m'')
     \<and> (CHR ''G'' \<in> set (upper (c # i @ [b]))) = (py_lower c = CHR ''g'')
     \<and> (CHR ''T'' \<in> set (upper (c # i @ [b]))) = (py_lower c = CHR ''t'')"
    by blast
  then show "\<not> is_numch c" and "\<not> is_space c"
    and "match_unit (c # i @ [b]) = Some (c # i @ [b])"
    and "match_unit [c] = None"
    and "(CHR ''K'' \<in> set (upper (c # i @ [b]))) = (py_lower c = CHR ''k'')"
    and "(CHR ''M'' \<in> set (upper (c # i @ [b]))) = (py_lower c = CHR ''m'')"
    and "(CHR ''G'' \<in> set (upper (c # i @ [b]))) = (py_lower c = CHR ''g'')"
    and "(CHR ''T'' \<in> set (upper (c # i @ [b]))) = (py_lower c = CHR ''t'')"
    by blast+
qed

subsection \<open>Numbers within the range of the doubles\<close>

text \<open>
  Rounding a rational below \<open>2 ^ 1023\<close> gives a finite double, and so does the
  product of a decimal number of at most 290 characters with a power of 1024 up to
  the fourth.
\<close>

lemma round_half_even_upper:
  assumes "0 < c"
  shows "2 * c * round_half_even a c \<le> 2 * a + c"
proof -
  define q where "q = a div c"
  define r where "r = a mod c"
  define p where "p = c * q"
  have eq: "a = p + r" by (simp add: p_def q_def r_def)
  from assms have r: "0 \<le> r" "r < c" by (simp_all add: r_def)
  have m: "round_half_even a c = q \<or> (round_half_even a c = q + 1 \<and> \<not> 2 * r < c)"
    by (auto simp: round_half_even_def Let_def q_def r_def)
  have "2 * c * q = 2 * p" "2 * c * (q + 1) = 2 * p + 2 * c"
    by (simp_all add: p_def algebra_simps)
  with m eq r show ?thesis by auto
qed

lemma round_half_even_nonneg: "0 < c \<Longrightarrow> 0 \<le> a \<Longrightarrow> 0 \<le> round_half_even a c"
  by (auto simp: round_half_even_def Let_def pos_imp_zdiv_nonneg_iff)

lemma floor_log2_lower:
  assumes "0 < a" and "0 < b" and "0 \<le> floor_log2 a b"
  shows "b * 2 ^ nat (floor_log2 a b) \<le> a"
proof -
  define k where "k = int (bit_length a) - int (bit_length b)"
  have fl: "floor_log2 a b =
      (if (if 0 \<le> k then b * 2 ^ nat k \<le> a else b \<le> a * 2 ^ nat (- k)) then k else k - 1)"
    unfolding floor_log2_def Let_def k_def ..
  show ?thesis
  proof (cases "if 0 \<le> k then b * 2 ^ nat k \<le> a else b \<le> a * 2 ^ nat (- k)")
    case True
    with fl have f: "floor_log2 a b = k" by simp
    with assms(3) True show ?thesis by simp
  next
    case False
    with fl have f: "floor_log2 a b = k - 1" by simp
    with assms(3) have k1: "1 \<le> k" by simp
    then have la: "bit_length a = bit_length b + nat (k - 1) + 1"
      by (simp add: k_def)
    from bit_length_bounds [OF assms(2)] have "b \<le> 2 ^ bit_length b" by simp
    then have "b * 2 ^ nat (k - 1) \<le> 2 ^ bit_length b * 2 ^ nat (k - 1)"
      by (rule mult_right_mono) simp
    also have "\<dots> = 2 ^ (bit_length a - 1)"
      by (simp add: la power_add)
    also from bit_length_bounds [OF assms(1)] have "\<dots> \<le> a" by simp
    finally show ?thesis by (simp add: f)
  qed
qed

lemma round_double_finite:
  assumes "0 < a" and "0 < b" and "a < b * 2 ^ 1023"
  shows "\<exists>m e. round_double a b = Finite m e \<and> 0 \<le> m
           \<and> (0 \<le> e \<longrightarrow> 2 * b * (m * 2 ^ nat e) \<le> 3 * a)
           \<and> (e < 0 \<longrightarrow> 2 * b * m \<le> 2 * (a * 2 ^ nat (- e)) + b)"
proof -
  define e where "e = max (floor_log2 a b - 52) (- 1074)"
  define m where "m = (if 0 \<le> e then round_half_even a (b * 2 ^ nat e)
                       else round_half_even (a * 2 ^ nat (- e)) b)"
  from assms(1) have a0: "a \<noteq> 0" by simp
  have rd: "round_double a b = (if 0 \<le> e \<and> 2 ^ 1024 \<le> m * 2 ^ nat e then Infinity else Finite m e)"
    using a0 by (simp add: round_double_def Let_def e_def m_def)
  show ?thesis
  proof (cases "0 \<le> e")
    case True
    then have el: "e = floor_log2 a b - 52" by (simp add: e_def)
    with True have l0: "0 \<le> floor_log2 a b" by simp
    have le: "nat e \<le> nat (floor_log2 a b)" using el True by simp
    have "b * 2 ^ nat e \<le> b * 2 ^ nat (floor_log2 a b)"
      using assms(2) le by (simp add: power_increasing)
    also have "\<dots> \<le> a" by (rule floor_log2_lower [OF assms(1,2) l0])
    finally have c: "b * 2 ^ nat e \<le> a" .
    from assms(2) have cpos: "0 < b * 2 ^ nat e" by simp
    from True have mm: "m = round_half_even a (b * 2 ^ nat e)" by (simp add: m_def)
    from round_half_even_upper [OF cpos, of a] c
    have "2 * (b * 2 ^ nat e) * m \<le> 3 * a" by (simp add: mm)
    then have u: "2 * b * (m * 2 ^ nat e) \<le> 3 * a" by (simp add: mult_ac)
    from round_half_even_nonneg [OF cpos, of a] assms(1) have m0: "0 \<le> m" by (simp add: mm)
    define P where "P = (2::int) ^ 1023"
    have P2: "(2::int) ^ 1024 = 2 * P" by (simp add: P_def)
    from u assms(3) have "2 * b * (m * 2 ^ nat e) < 3 * (b * P)" by (simp add: P_def)
    then have "b * (2 * (m * 2 ^ nat e)) < b * (3 * P)" by (simp add: mult_ac)
    with assms(2) have "2 * (m * 2 ^ nat e) < 3 * P" by (simp add: mult_less_cancel_left_pos)
    moreover have "0 < P" by (simp add: P_def)
    ultimately have "\<not> 2 ^ 1024 \<le> m * 2 ^ nat e" unfolding P2 by linarith
    with rd True u m0 show ?thesis by auto
  next
    case False
    then have mm: "m = round_half_even (a * 2 ^ nat (- e)) b" by (simp add: m_def)
    from round_half_even_upper [OF assms(2), of "a * 2 ^ nat (- e)"]
    have u: "2 * b * m \<le> 2 * (a * 2 ^ nat (- e)) + b" by (simp add: mm)
    from round_half_even_nonneg [OF assms(2), of "a * 2 ^ nat (- e)"] assms(1)
    have m0: "0 \<le> m" by (simp add: mm)
    from rd False u m0 show ?thesis by auto
  qed
qed

lemma round_double_finite0:
  assumes "0 \<le> a" and "0 < b" and "a < b * 2 ^ 1023"
  shows "\<exists>m e. round_double a b = Finite m e"
proof (cases "a = 0")
  case True
  then show ?thesis by (simp add: round_double_def)
next
  case False
  with assms(1) have "0 < a" by simp
  from round_double_finite [OF this assms(2,3)] show ?thesis by blast
qed

lemma fmul_finite:
  assumes "0 \<le> a" and "0 < b" and "a * 2 ^ s < b * 2 ^ 1021" and "s \<le> 1021"
  shows "\<exists>m e. round_double a b = Finite m e \<and> (\<exists>m' e'. fmul (Finite m e) (2 ^ s) = Finite m' e')"
proof (cases "a = 0")
  case True
  then show ?thesis by (simp add: round_double_def)
next
  case False
  with assms(1) have a: "0 < a" by simp
  define P where "P = (2::int) ^ 1021"
  have P: "0 < P" "(2::int) ^ 1023 = 4 * P" by (simp_all add: P_def)
  have s1: "(1::int) \<le> 2 ^ s" by simp
  from assms(4) have sP: "(2::int) ^ s \<le> P"
    unfolding P_def by (intro power_increasing) simp_all
  from a s1 have "a * 1 \<le> a * 2 ^ s" by (intro mult_left_mono) simp_all
  with assms(3) have aP: "a < b * P" by (simp add: P_def)
  with assms(2) P have "a < b * 2 ^ 1023"
    unfolding P(2) by (smt (verit) mult_less_cancel_left_pos mult_pos_pos)
  from round_double_finite [OF a assms(2) this] obtain m e where
    rd: "round_double a b = Finite m e" and m0: "0 \<le> m"
    and up: "0 \<le> e \<longrightarrow> 2 * b * (m * 2 ^ nat e) \<le> 3 * a"
    and un: "e < 0 \<longrightarrow> 2 * b * m \<le> 2 * (a * 2 ^ nat (- e)) + b"
    by blast
  have "\<exists>m' e'. fmul (Finite m e) (2 ^ s) = Finite m' e'"
  proof (cases "0 \<le> e")
    case True
    define A where "A = m * 2 ^ s * 2 ^ nat e"
    have A0: "0 \<le> A" using m0 by (simp add: A_def)
    from up True have "2 * b * (m * 2 ^ nat e) \<le> 3 * a" by simp
    then have "2 * b * (m * 2 ^ nat e) * 2 ^ s \<le> 3 * a * 2 ^ s"
      by (rule mult_right_mono) simp
    then have "b * (2 * A) \<le> 3 * (a * 2 ^ s)" by (simp add: A_def mult_ac)
    also from assms(3) have "\<dots> < 3 * (b * P)" by (simp add: P_def)
    finally have "b * (2 * A) < b * (3 * P)" by (simp add: mult_ac)
    with assms(2) have "2 * A < 3 * P" by (simp add: mult_less_cancel_left_pos)
    with P have "A < 1 * 2 ^ 1023" by simp
    from round_double_finite0 [OF A0 _ this] show ?thesis
      using True by (simp add: A_def)
  next
    case False
    define E where "E = (2::int) ^ nat (- e)"
    have E: "1 \<le> E" by (simp add: E_def)
    define A where "A = m * 2 ^ s"
    have A0: "0 \<le> A" using m0 by (simp add: A_def)
    from un False have "2 * b * m \<le> 2 * (a * E) + b" by (simp add: E_def)
    then have "2 * b * m * 2 ^ s \<le> (2 * (a * E) + b) * 2 ^ s"
      by (rule mult_right_mono) simp
    then have "b * (2 * A) \<le> 2 * (a * 2 ^ s) * E + b * 2 ^ s"
      by (simp add: A_def algebra_simps)
    also have "2 * (a * 2 ^ s) * E \<le> 2 * (b * P) * E"
      using assms(3) E by (intro mult_right_mono mult_left_mono) (simp_all add: P_def)
    also have "b * 2 ^ s \<le> b * (P * E)"
    proof -
      from P E have "P * 1 \<le> P * E" by (intro mult_left_mono) simp_all
      with sP have "2 ^ s \<le> P * E" by simp
      with assms(2) show ?thesis by (simp add: mult_left_mono)
    qed
    finally have "b * (2 * A) \<le> b * (3 * (P * E))" by (simp add: algebra_simps)
    with assms(2) have "2 * A \<le> 3 * (P * E)" by (simp add: mult_le_cancel_left_pos)
    moreover from P E have "0 < P * E" by (simp add: mult_pos_pos)
    ultimately have "A < E * (4 * P)" by (simp add: mult_ac)
    then have "A < 2 ^ nat (- e) * 2 ^ 1023" unfolding E_def P(2) .
    from round_double_finite0 [OF A0 _ this] show ?thesis
      using False by (simp add: A_def)
  qed
  with rd show ?thesis by blast
qed

lemma digits_val_upper:
  "list_all is_digit ds \<Longrightarrow> 0 \<le> acc \<Longrightarrow> digits_val acc ds < (acc + 1) * 10 ^ length ds"
proof (induction ds arbitrary: acc)
  case Nil
  then show ?case by simp
next
  case (Cons c ds)
  from Cons.prems digit_val_range [of c] have d: "0 \<le> digit_val c" "digit_val c \<le> 9" by simp_all
  with Cons.prems have "digits_val (10 * acc + digit_val c) ds < (10 * acc + digit_val c + 1) * 10 ^ length ds"
    by (intro Cons.IH) simp_all
  also from d have "\<dots> \<le> (10 * acc + 10) * 10 ^ length ds"
    by (intro mult_right_mono) simp_all
  finally show ?case by (simp add: algebra_simps)
qed

lemma py_float_decimal:
  assumes "py_float num = Inr v"
  shows "\<exists>a b. v = round_double a b \<and> 0 \<le> a \<and> a < 10 ^ length num \<and> 0 < b"
proof -
  define ip where "ip = takeWhile is_digit num"
  have ipd: "list_all is_digit ip"
    by (auto simp: ip_def list_all_iff dest: set_takeWhileD)
  have num: "num = ip @ dropWhile is_digit num" by (simp add: ip_def)
  show ?thesis
  proof (cases "dropWhile is_digit num")
    case Nil
    with assms have v: "v = round_double (digits_val 0 ip) 1"
      by (simp add: py_float_def Let_def ip_def split: if_splits)
    from digits_val_upper [OF ipd, of 0] have "digits_val 0 ip < 10 ^ length ip" by simp
    also have "\<dots> \<le> 10 ^ length num"
      by (intro power_increasing) (simp_all add: ip_def length_takeWhile_le)
    finally show ?thesis
      using v digits_val_nonneg [OF _ ipd, of 0]
      by (intro exI [of _ "digits_val 0 ip"] exI [of _ 1]) simp
  next
    case (Cons c fp)
    with assms have v: "v = round_double (digits_val 0 (ip @ fp)) (10 ^ length fp)"
      and fpd: "list_all is_digit fp"
      by (simp_all add: py_float_def Let_def ip_def split: if_splits)
    from ipd fpd have d: "list_all is_digit (ip @ fp)" by simp
    from num Cons have "length num = length ip + Suc (length fp)"
      by (metis length_append length_Cons)
    then have len: "length (ip @ fp) \<le> length num" by simp
    from digits_val_upper [OF d, of 0] have "digits_val 0 (ip @ fp) < 10 ^ length (ip @ fp)" by simp
    also from len have "\<dots> \<le> 10 ^ length num"
      by (intro power_increasing) simp_all
    finally show ?thesis
      using v digits_val_nonneg [OF _ d, of 0]
      by (intro exI [of _ "digits_val 0 (ip @ fp)"] exI [of _ "10 ^ length fp"]) simp
  qed
qed

lemma short_number_finite:
  assumes "py_float num = Inr v" and "length num \<le> 290" and "k \<le> 4"
  shows "\<exists>m e. v = Finite m e \<and> (\<exists>m' e'. fmul v (1024 ^ k) = Finite m' e')"
proof -
  from py_float_decimal [OF assms(1)] obtain a b where
    v: "v = round_double a b" and a: "0 \<le> a" "a < 10 ^ length num" and b: "0 < b"
    by blast
  have p: "(1024::int) ^ k = 2 ^ (10 * k)" by (simp add: power_mult)
  from assms(3) have k: "10 * k \<le> 40" by simp
  from assms(2) have "(10::int) ^ length num \<le> 10 ^ 290"
    by (intro power_increasing) simp_all
  with a have a290: "a < 10 ^ 290" by simp
  from k have "(2::int) ^ (10 * k) \<le> 2 ^ 40"
    by (intro power_increasing) simp_all
  with a have "a * 2 ^ (10 * k) \<le> a * 2 ^ 40"
    by (intro mult_left_mono) simp_all
  also from a290 have "\<dots> < 10 ^ 290 * 2 ^ 40" by simp
  also have "\<dots> \<le> 1 * (2::int) ^ 1021" by simp
  also from b have "\<dots> \<le> b * 2 ^ 1021"
    by (intro mult_right_mono) simp_all
  finally have "a * 2 ^ (10 * k) < b * 2 ^ 1021" .
  from fmul_finite [OF a(1) b this] k show ?thesis
    by (auto simp: v p)
qed

subsection \<open>A number and a unit\<close>

text \<open>
  C4. For a decimal number followed by one of the letters K, M, G, T and then
  \<^verbatim>\<open>B\<close> or \<^verbatim>\<open>iB\<close>, in either case, \<^verbatim>\<open>human_to_bytes\<close> multiplies the number, as
  a float, by the power of 1024 of the letter. Where the product is a finite double
  it returns the product, truncated; where the product is \<^verbatim>\<open>inf\<close> it raises
  \<^verbatim>\<open>OverflowError\<close>. The product is finite for every number of at most 290
  characters, and for a whole number below \<open>2 ^ 53\<close> the result is the number times
  the power of 1024, exactly. A unit letter with no \<^verbatim>\<open>B\<close> after it is not a unit:
  the result is the number alone, truncated, and \<^verbatim>\<open>OverflowError\<close> where the number
  is \<^verbatim>\<open>inf\<close>, which no number of at most 290 characters is.
\<close>

theorem human_to_bytes_unit:
  assumes "num \<noteq> []" and "list_all is_numch num"
    and "py_lower c \<in> set ''kmgt''" and "i \<in> set [[], ''i'', ''I'']" and "py_lower b = CHR ''b''"
  shows "(py_float num = Inr v \<longrightarrow>
            human_to_bytes (num @ c # i @ [b]) =
              (case fmul v (1024 ^ unit_power c) of
                 Finite m e \<Rightarrow> Inr (if 0 \<le> e then m * 2 ^ nat e else m div 2 ^ nat (- e))
               | Infinity \<Rightarrow> Inl (OverflowError ''cannot convert float infinity to integer''))
            \<and> human_to_bytes (num @ [c]) =
              (case v of
                 Finite m e \<Rightarrow> Inr (if 0 \<le> e then m * 2 ^ nat e else m div 2 ^ nat (- e))
               | Infinity \<Rightarrow> Inl (OverflowError ''cannot convert float infinity to integer''))
            \<and> (length num \<le> 290 \<longrightarrow>
                  (\<exists>n. human_to_bytes (num @ c # i @ [b]) = Inr n)
                  \<and> (\<exists>n. human_to_bytes (num @ [c]) = Inr n)))
       \<and> (list_all is_digit num \<and> digits_val 0 num < 2 ^ 53 \<longrightarrow>
            human_to_bytes (num @ c # i @ [b]) = Inr (digits_val 0 num * 1024 ^ unit_power c)
            \<and> human_to_bytes (num @ [c]) = Inr (digits_val 0 num))"
proof -
  note u = unit_token [OF assms(3-5)]
  from assms(3) have k: "py_lower c = CHR ''k'' \<or> py_lower c = CHR ''m''
      \<or> py_lower c = CHR ''g'' \<or> py_lower c = CHR ''t''"
    by auto
  have k4: "unit_power c \<le> 4" by (simp add: unit_power_def)
  have with_B: "UNIT_RE_search (num @ c # i @ [b]) = Some (num, Some (c # i @ [b]))"
    using UNIT_RE_search_number [OF assms(1,2) u(1,2), of "i @ [b]"] u(3) by simp
  have without_B: "UNIT_RE_search (num @ [c]) = Some (num, None)"
    using UNIT_RE_search_number [OF assms(1,2) u(1,2), of "[]"] u(4) by simp
  have general: "human_to_bytes (num @ c # i @ [b]) = py_int (fmul x (1024 ^ unit_power c))
      \<and> human_to_bytes (num @ [c]) = py_int x" if "py_float num = Inr x" for x
  proof
    show "human_to_bytes (num @ c # i @ [b]) = py_int (fmul x (1024 ^ unit_power c))"
      using assms(1) that k with_B by (auto simp: human_to_bytes_def u(5-8) unit_power_def)
    show "human_to_bytes (num @ [c]) = py_int x"
      using assms(1) that without_B by (simp add: human_to_bytes_def upper_def)
  qed
  have py_int_cases: "py_int f =
      (case f of
         Finite m e \<Rightarrow> Inr (if 0 \<le> e then m * 2 ^ nat e else m div 2 ^ nat (- e))
       | Infinity \<Rightarrow> Inl (OverflowError ''cannot convert float infinity to integer''))" for f
    by (cases f) simp_all
  have short: "(\<exists>n. human_to_bytes (num @ c # i @ [b]) = Inr n)
      \<and> (\<exists>n. human_to_bytes (num @ [c]) = Inr n)"
    if "py_float num = Inr x" and "length num \<le> 290" for x
  proof -
    from short_number_finite [OF that k4] obtain m e m' e' where
      "x = Finite m e" "fmul x (1024 ^ unit_power c) = Finite m' e'"
      by blast
    with general [OF that(1)] show ?thesis by simp
  qed
  have whole: "human_to_bytes (num @ c # i @ [b]) = Inr (digits_val 0 num * 1024 ^ unit_power c)
      \<and> human_to_bytes (num @ [c]) = Inr (digits_val 0 num)"
    if "list_all is_digit num" and "digits_val 0 num < 2 ^ 53"
  proof -
    have "unit_power c \<le> 90" by (simp add: unit_power_def)
    from whole_times_power [OF assms(1) that this] obtain x where
      x: "py_float num = Inr x" "py_int x = Inr (digits_val 0 num)"
         "py_int (fmul x (1024 ^ unit_power c)) = Inr (digits_val 0 num * 1024 ^ unit_power c)"
      by blast
    with general [OF x(1)] show ?thesis by simp
  qed
  from general [of v] short [of v] whole show ?thesis
    unfolding py_int_cases by blast
qed

theorem human_to_bytes_unit_witness:
  "py_float ''1.5'' = Inr (Finite 6755399441055744 (- 52))
   \<and> length ''1.5'' \<le> 290
   \<and> human_to_bytes ''1.5MiB'' = Inr 1572864
   \<and> human_to_bytes ''1.5M'' = Inr 1
   \<and> list_all is_digit ''2'' \<and> digits_val 0 ''2'' < 2 ^ 53
   \<and> human_to_bytes ''2MiB'' = Inr (2 * 1024 * 1024)
   \<and> human_to_bytes ''2M'' = Inr 2"
proof -
  have a: "''1.5'' \<noteq> []" "list_all is_numch ''1.5''"
    "py_lower CHR ''M'' \<in> set ''kmgt''" "''i'' \<in> set [[], ''i'', ''I'']"
    "py_lower CHR ''B'' = CHR ''b''"
    by code_simp+
  have b: "''2'' \<noteq> []" "list_all is_numch ''2''"
    by code_simp+
  have f: "py_float ''1.5'' = Inr (Finite 6755399441055744 (- 52))"
    by code_simp
  have v: "fmul (Finite 6755399441055744 (- 52)) (1024 ^ unit_power CHR ''M'')
             = Finite 6755399441055744 (- 32)"
    "6755399441055744 div 2 ^ nat (- (- 32)) = (1572864 :: int)"
    "6755399441055744 div 2 ^ nat (- (- 52)) = (1 :: int)"
    by code_simp+
  have d: "list_all is_digit ''2''" "digits_val 0 ''2'' < 2 ^ 53"
    "digits_val 0 ''2'' * 1024 ^ unit_power CHR ''M'' = 2 * 1024 * 1024" "digits_val 0 ''2'' = 2"
    by code_simp+
  from human_to_bytes_unit [OF a, of "Finite 6755399441055744 (- 52)"]
       human_to_bytes_unit [OF b a(3-5), of "Finite 0 0"]
  show ?thesis using f v d by simp
qed

text \<open>
  \<^verbatim>\<open>toBytes("1K")\<close> is 1, not 1024: group 2 of \<^verbatim>\<open>UNIT_RE\<close> ends in \<^verbatim>\<open>B\<close>.
\<close>

theorem human_to_bytes_1K:
  "human_to_bytes ''1K'' = Inr 1 \<and> human_to_bytes ''1K'' \<noteq> Inr (1 * 1024)"
  by code_simp

text \<open>
  The product can be \<^verbatim>\<open>inf\<close> where the number is a finite double: \<open>10 ^ 297\<close> is
  one, and \<open>10 ^ 297\<close> TiB raises \<^verbatim>\<open>OverflowError\<close>.
\<close>

lemma round_double_10_297: "\<exists>m e. round_double (10 ^ 297) 1 = Finite m e"
  by (rule round_double_finite0) simp_all

lemma human_to_bytes_unit_overflow:
  "human_to_bytes (CHR ''1'' # replicate 297 CHR ''0'' @ ''TiB'')
     = Inl (OverflowError ''cannot convert float infinity to integer'')"
  by code_simp

subsection \<open>Strings that are not numbers\<close>

text \<open>
  Where the parser returns 0: on the empty string and on every string with no digit
  and no dot.
\<close>

lemma human_to_bytes_garbage:
  "human_to_bytes [] = Inr 0" "human_to_bytes ''garbage'' = Inr 0" "human_to_bytes ''0'' = Inr 0"
  by code_simp+

lemma UNIT_RE_search_None:
  "list_all (\<lambda>c. \<not> is_numch c) s \<Longrightarrow> UNIT_RE_search s = None"
  by (induction s) (simp_all add: UNIT_RE_match_def)

lemma valid_int_body_digit: "valid_int_body b \<Longrightarrow> \<exists>c \<in> set b. is_digit c"
  by (cases b) (auto simp: valid_int_body_def)

lemma set_strip: "set (strip s) \<subseteq> set s"
proof -
  have dw: "\<And>P xs. set (dropWhile P xs) \<subseteq> set (xs :: string)"
    by (auto dest: set_dropWhileD)
  have "set (strip s) \<subseteq> set (rev (dropWhile is_space s))"
    using dw [of is_space "rev (dropWhile is_space s)"] by (simp add: strip_def)
  also have "\<dots> \<subseteq> set s"
    using dw [of is_space s] by simp
  finally show ?thesis .
qed

lemma py_int_str_None:
  assumes "list_all (\<lambda>c. \<not> is_numch c) s"
  shows "py_int_str s = None"
proof -
  from assms have nd: "\<And>c. c \<in> set s \<Longrightarrow> \<not> is_digit c"
    by (auto simp: list_all_iff is_numch_def)
  have a: "\<not> valid_int_body (strip s)"
    using valid_int_body_digit [of "strip s"] nd set_strip [of s] by blast
  have "set (tl (strip s)) \<subseteq> set (strip s)"
    by (cases "strip s") auto
  then have b: "\<not> valid_int_body (tl (strip s))"
    using valid_int_body_digit [of "tl (strip s)"] nd set_strip [of s] by blast
  from a b show ?thesis
    by (simp add: py_int_str_def Let_def)
qed

lemma human_to_bytes_no_number:
  "list_all (\<lambda>c. \<not> is_numch c) s \<Longrightarrow> human_to_bytes s = Inr 0"
  by (simp add: human_to_bytes_def UNIT_RE_search_None py_int_str_None)

text \<open>A number too large for a double raises \<^verbatim>\<open>OverflowError\<close>.\<close>

lemma human_to_bytes_overflow:
  "human_to_bytes (CHR ''1'' # replicate 309 CHR ''0'')
     = Inl (OverflowError ''cannot convert float infinity to integer'')"
  by code_simp

text \<open>
  C5. \<^verbatim>\<open>human_to_bytes\<close> should return 0 on a string it cannot parse, and never
  raise. On a run of digits and dots that is not a number, such as \<^verbatim>\<open>.\<close> or
  \<^verbatim>\<open>1.2.3\<close>, \<^verbatim>\<open>float\<close> raises \<^verbatim>\<open>ValueError\<close> out of it.
\<close>

theorem human_to_bytes_raises:
  "human_to_bytes ''.'' = Inl (float_error ''.'')
   \<and> human_to_bytes ''1.2.3MiB'' = Inl (float_error ''1.2.3'')"
  by code_simp

section \<open>Properties of the progress line parser\<close>

lemma marker_search:
  "PROGRESS_RE_search ''[#a1b2 10MiB/100MiB(10%) CN:4 DL:1.5MiB ETA:1m0s]'' =
     Some \<lparr>group1 = ''a1b2'', group2 = ''10MiB'', group3 = ''100MiB'', group4 = ''10'',
           group5 = ''4'', group6 = ''1.5MiB'', group7 = ''1m0s''\<rparr>"
  by code_simp

lemma marker_values:
  "human_to_bytes ''10MiB'' = Inr (10 * 1024 * 1024)"
  "human_to_bytes ''100MiB'' = Inr (100 * 1024 * 1024)"
  "digits_val 0 ''10'' = 10"
  "digits_val 0 ''4'' = 4"
  "strip ''1m0s'' = ''1m0s''"
  by code_simp+

lemma marker_no_keyword:
  "list_ex (\<lambda>keyword. contains keyword (lower ''[#a1b2 10MiB/100MiB(10%) CN:4 DL:1.5MiB ETA:1m0s]''))
     completion_keywords = False"
  by code_simp

lemma no_marker: "PROGRESS_RE_search ''Download complete: /tmp/file.bin'' = None"
  by code_simp

text \<open>
  C6. On the line \<^verbatim>\<open>[#a1b2 10MiB/100MiB(10%) CN:4 DL:1.5MiB ETA:1m0s]\<close>,
  \<^verbatim>\<open>_parse_progress\<close> sets the gid, the byte counts, the percentage, the connection
  count, the speed and the ETA to the values of the line, whatever they were. On a
  line in which \<^verbatim>\<open>PROGRESS_RE\<close> finds no match it leaves all seven as they were.
\<close>

theorem parse_progress_fields:
  "(let t' = parse_progress w ''[#a1b2 10MiB/100MiB(10%) CN:4 DL:1.5MiB ETA:1m0s]'' t
    in gid t' = Some ''a1b2''
       \<and> have_bytes t' = 10 * 1024 * 1024
       \<and> total_bytes t' = 100 * 1024 * 1024
       \<and> progress t' = 10
       \<and> connections t' = 4
       \<and> dl_speed t' = ''1.5MiB''
       \<and> eta t' = ''1m0s'')
   \<and> (PROGRESS_RE_search line = None \<longrightarrow>
        (let t' = parse_progress w line t
         in gid t' = gid t
            \<and> have_bytes t' = have_bytes t
            \<and> total_bytes t' = total_bytes t
            \<and> progress t' = progress t
            \<and> connections t' = connections t
            \<and> dl_speed t' = dl_speed t
            \<and> eta t' = eta t))"
proof
  show "let t' = parse_progress w ''[#a1b2 10MiB/100MiB(10%) CN:4 DL:1.5MiB ETA:1m0s]'' t
    in gid t' = Some ''a1b2''
       \<and> have_bytes t' = 10 * 1024 * 1024
       \<and> total_bytes t' = 100 * 1024 * 1024
       \<and> progress t' = 10
       \<and> connections t' = 4
       \<and> dl_speed t' = ''1.5MiB''
       \<and> eta t' = ''1m0s''"
    unfolding parse_progress_def marker_search marker_no_keyword
    by (simp add: marker_values del: digits_val.simps)
next
  show "PROGRESS_RE_search line = None \<longrightarrow>
        (let t' = parse_progress w line t
         in gid t' = gid t
            \<and> have_bytes t' = have_bytes t
            \<and> total_bytes t' = total_bytes t
            \<and> progress t' = progress t
            \<and> connections t' = connections t
            \<and> dl_speed t' = dl_speed t
            \<and> eta t' = eta t)"
    by (simp add: parse_progress_def Let_def)
qed

theorem parse_progress_fields_witness:
  "PROGRESS_RE_search ''Download complete: /tmp/file.bin'' = None
   \<and> (let t' = parse_progress example_world ''Download complete: /tmp/file.bin'' example_task
      in gid t' = gid example_task
         \<and> have_bytes t' = have_bytes example_task
         \<and> total_bytes t' = total_bytes example_task
         \<and> progress t' = progress example_task
         \<and> connections t' = connections example_task
         \<and> dl_speed t' = dl_speed example_task
         \<and> eta t' = eta example_task
         \<and> status t' = ''Completed'')"
proof -
  have s: "status (parse_progress example_world ''Download complete: /tmp/file.bin'' example_task)
             = ''Completed''"
    by code_simp
  from parse_progress_fields [where w = example_world and t = example_task
         and line = "''Download complete: /tmp/file.bin''"]
  show ?thesis using no_marker s by (simp add: Let_def)
qed

section \<open>Properties of the command builder\<close>

lemma str_of_int_4: "str_of_int 4 = ''4''"
  by code_simp

text \<open>
  C7. With a split count of 4 and no \<^verbatim>\<open>max-connection-per-server\<close> in the options,
  \<^verbatim>\<open>build_command\<close> returns an argument vector that holds \<^verbatim>\<open>--split=4\<close> and
  \<^verbatim>\<open>--max-connection-per-server=4\<close>. It fails to return one only when the output
  directory is missing and cannot be created.
\<close>

theorem build_command_split:
  assumes "opt_split (options t) = Some 4"
    and "opt_max_connection_per_server (options t) = None"
  shows "case build_command sh p w t of
           Inl e \<Rightarrow> out_dir t \<notin> set (dirs w) \<and> makedirs_error w \<noteq> None
         | Inr (cmd, w') \<Rightarrow>
             ''--split=4'' \<in> set cmd \<and> ''--max-connection-per-server=4'' \<in> set cmd"
  using assms by (simp add: build_command_def Let_def str_of_int_4 split: option.splits)

theorem build_command_split_witness:
  "opt_split (options example_task) = Some 4
   \<and> opt_max_connection_per_server (options example_task) = None
   \<and> (case build_command example_shlex ''aria2c'' example_world example_task of
         Inl e \<Rightarrow> False
       | Inr (cmd, w') \<Rightarrow>
           ''--split=4'' \<in> set cmd \<and> ''--max-connection-per-server=4'' \<in> set cmd)"
proof -
  have a: "opt_split (options example_task) = Some 4" by code_simp
  have b: "opt_max_connection_per_server (options example_task) = None" by code_simp
  have c: "isl (build_command example_shlex ''aria2c'' example_world example_task) = False"
    by code_simp
  from build_command_split [OF a b, where sh = example_shlex and p = "''aria2c''"
         and w = example_world]
  show ?thesis using a b c by (auto split: sum.splits)
qed

section \<open>Properties of the lifecycle\<close>

subsection \<open>What each operation leaves alone\<close>

lemma process_log [simp]: "process (log w m t) = process t"
  by (simp add: log_def)

lemma status_log [simp]: "status (log w m t) = status t"
  by (simp add: log_def)

lemma stop_flag_log [simp]: "stop_flag (log w m t) = stop_flag t"
  by (simp add: log_def)

lemma options_log [simp]: "options (log w m t) = options t"
  by (simp add: log_def)

lemma process_parse_progress [simp]: "process (parse_progress w line t) = process t"
  by (simp add: parse_progress_def Let_def split: option.splits sum.splits)

lemma stop_flag_parse_progress [simp]: "stop_flag (parse_progress w line t) = stop_flag t"
  by (simp add: parse_progress_def Let_def split: option.splits sum.splits)

lemma process_read_lines [simp]: "process (read_lines w ls t) = process t"
  by (induction ls arbitrary: t) simp_all

lemma process_wait [simp]: "(process (wait rc t) = None) = (process t = None)"
  by (simp add: wait_def)

lemma status_wait [simp]: "status (wait rc t) = status t"
  by (simp add: wait_def)

lemma process_terminate [simp]: "(process (terminate t) = None) = (process t = None)"
  by (simp add: terminate_def)

lemma process_pause [simp]: "(process (pause w t) = None) = (process t = None)"
  by (simp add: pause_def split: option.splits)

lemma process_stop [simp]: "(process (stop w t) = None) = (process t = None)"
  by (simp add: stop_def Let_def split: option.splits)

lemma process_read_output [simp]: "(process (read_output ls rc w t) = None) = (process t = None)"
  by (simp add: read_output_def Let_def)

subsection \<open>The status strings\<close>

lemma lifecycle_status_not_Downloading: "lifecycle_status s \<Longrightarrow> s \<noteq> ''Downloading''"
  by (auto simp: lifecycle_status_def)

lemma lifecycle_status_new_task: "lifecycle_status (status (new_task w u d n opts))"
  by (simp add: new_task_def lifecycle_status_def)

lemma lifecycle_status_parse_progress:
  "lifecycle_status (status t) \<Longrightarrow> lifecycle_status (status (parse_progress w line t))"
  by (simp add: parse_progress_def Let_def lifecycle_status_def split: option.splits sum.splits)

lemma lifecycle_status_read_lines:
  "lifecycle_status (status t) \<Longrightarrow> lifecycle_status (status (read_lines w ls t))"
  by (induction ls arbitrary: t) (simp_all add: lifecycle_status_parse_progress)

text \<open>
  The reader never reaches its classification of the exit code: it compares the
  status with a string that is never assigned.
\<close>

lemma read_output_never_classifies:
  "lifecycle_status (status t) \<Longrightarrow> process t \<noteq> None \<Longrightarrow>
     read_output ls rc w t = wait rc (read_lines w ls t)"
  using lifecycle_status_not_Downloading [OF lifecycle_status_read_lines, of t w ls]
  by (auto simp: read_output_def Let_def)

lemma lifecycle_status_read_output:
  "lifecycle_status (status t) \<Longrightarrow> lifecycle_status (status (read_output ls rc w t))"
  by (cases "process t = None")
     (simp_all add: read_output_never_classifies lifecycle_status_read_lines, simp add: read_output_def)

lemma lifecycle_status_start:
  "lifecycle_status (status t) \<Longrightarrow> lifecycle_status (status (fst (snd (start sh p w t))))"
  by (simp add: start_def Let_def lifecycle_status_def split: sum.splits option.splits prod.splits)

lemma lifecycle_status_pause:
  "lifecycle_status (status t) \<Longrightarrow> lifecycle_status (status (pause w t))"
  by (simp add: pause_def lifecycle_status_def split: option.splits)

lemma lifecycle_status_stop: "lifecycle_status (status (stop w t))"
  by (simp add: stop_def Let_def lifecycle_status_def)

lemma lifecycle_status_resume:
  "lifecycle_status (status t) \<Longrightarrow> lifecycle_status (status (fst (snd (resume sh p w t))))"
  by (auto simp: resume_def lifecycle_status_start)

lemma lifecycle_status_do_step:
  "lifecycle_status (status t) \<Longrightarrow> lifecycle_status (status (fst (do_step sh x (t, w))))"
  by (cases x)
     (simp_all add: lifecycle_status_start lifecycle_status_pause lifecycle_status_stop
        lifecycle_status_resume lifecycle_status_read_output)

lemma lifecycle_status_run:
  "lifecycle_status (status t) \<Longrightarrow> lifecycle_status (status (fst (run sh xs (t, w))))"
proof (induction xs arbitrary: t w)
  case Nil
  then show ?case by simp
next
  case (Cons x xs)
  from lifecycle_status_do_step [OF Cons.prems, of sh x w]
    Cons.IH [of "fst (do_step sh x (t, w))" "snd (do_step sh x (t, w))"]
  show ?case by simp
qed

subsection \<open>The process handle\<close>

lemma start_handle_set:
  "process t \<noteq> None \<Longrightarrow> start sh p w t = (None, log w ''Task is already in progress.'' t, w)"
  by (simp add: start_def)

lemma resume_handle_set:
  "process t \<noteq> None \<Longrightarrow> \<exists>t'. resume sh p w t = (None, t', w) \<and> process t' \<noteq> None"
  by (simp add: resume_def start_handle_set)

lemma do_step_handle_set:
  assumes "process t \<noteq> None"
  shows "process (fst (do_step sh x (t, w))) \<noteq> None
         \<and> spawned (snd (do_step sh x (t, w))) = spawned w"
proof (cases x)
  case (Resume p)
  with resume_handle_set [OF assms, of sh p w] show ?thesis by auto
qed (simp_all add: assms start_handle_set)

lemma run_handle_set:
  "process t \<noteq> None \<Longrightarrow>
     process (fst (run sh xs (t, w))) \<noteq> None \<and> spawned (snd (run sh xs (t, w))) = spawned w"
proof (induction xs arbitrary: t w)
  case Nil
  then show ?case by simp
next
  case (Cons x xs)
  obtain t' w' where s: "do_step sh x (t, w) = (t', w')" by (cases "do_step sh x (t, w)")
  with do_step_handle_set [OF Cons.prems, of sh x w]
  have "process t' \<noteq> None" "spawned w' = spawned w" by simp_all
  with Cons.IH [of t' w'] s show ?case by simp
qed

text \<open>
  C10. Once the process handle of a task is set, no step resets it: not
  \<^verbatim>\<open>start\<close>, \<^verbatim>\<open>pause\<close>, \<^verbatim>\<open>stop\<close>, \<^verbatim>\<open>resume\<close>, a run of the background reader,
  the exit of the child or a change of the surroundings. So no later step spawns a
  child, and a later \<^verbatim>\<open>start\<close>, also after the child has exited, only logs
  \<^verbatim>\<open>Task is already in progress.\<close> and returns.
\<close>

theorem handle_never_reset:
  assumes "process t \<noteq> None"
  shows "process (fst (run sh xs (t, w))) \<noteq> None
       \<and> spawned (snd (run sh xs (t, w))) = spawned w
       \<and> start sh p (snd (run sh xs (t, w))) (fst (run sh xs (t, w)))
           = (None,
              log (snd (run sh xs (t, w))) ''Task is already in progress.'' (fst (run sh xs (t, w))),
              snd (run sh xs (t, w)))"
  using run_handle_set [OF assms, of sh xs w] by (simp add: start_handle_set)

theorem handle_never_reset_witness:
  "process (fst (run example_shlex [Start ''aria2c''] (example_task, example_world))) \<noteq> None
   \<and> process (fst (run example_shlex [Pause, Child_exit (- 15), Resume ''aria2c'', Read_output [] 0]
                     (run example_shlex [Start ''aria2c''] (example_task, example_world)))) \<noteq> None
   \<and> length (spawned (snd (run example_shlex [Pause, Child_exit (- 15), Resume ''aria2c'', Read_output [] 0]
                     (run example_shlex [Start ''aria2c''] (example_task, example_world))))) = 1"
proof -
  let ?s = "run example_shlex [Start ''aria2c''] (example_task, example_world)"
  have h: "process (fst ?s) \<noteq> None" by code_simp
  have l: "length (spawned (snd ?s)) = 1" by code_simp
  from handle_never_reset [OF h, of example_shlex
         "[Pause, Child_exit (- 15), Resume ''aria2c'', Read_output [] 0]" "snd ?s" "''aria2c''"]
  show ?thesis using h l by simp
qed

subsection \<open>Stopping\<close>

text \<open>
  C9. Calling \<^verbatim>\<open>stop\<close> twice in a row leaves the status \<^verbatim>\<open>Stopped\<close>, whatever
  the task and the surroundings of either call are, and spawns nothing: the
  surroundings after the two calls are those before them.
\<close>

theorem stop_twice:
  "status (stop w' (stop w t)) = ''Stopped''
   \<and> run sh [Stop, Stop] (t, w) = (stop w (stop w t), w)"
  by (simp add: stop_def Let_def)

subsection \<open>Resuming\<close>

text \<open>
  C8. \<^verbatim>\<open>resume\<close> on a task whose status is \<^verbatim>\<open>Completed\<close>, or whose child is alive,
  only appends a log message: nothing is spawned and nothing else changes.
  Otherwise it logs, sets the option \<^verbatim>\<open>continue\<close> and calls \<^verbatim>\<open>start\<close>.
\<close>

theorem resume_cases:
  "(status t = ''Completed'' \<longrightarrow>
      resume sh p w t = (None, log w ''Task already completed, no need to resume'' t, w))
   \<and> (status t \<noteq> ''Completed'' \<and> alive t \<longrightarrow>
      resume sh p w t = (None, log w ''Task is still running, cannot resume'' t, w))
   \<and> (status t \<noteq> ''Completed'' \<and> \<not> alive t \<longrightarrow>
      resume sh p w t =
        start sh p w ((log w ''Resuming download (resume broken download)'' t)
                        \<lparr>options := (options t)\<lparr>opt_continue := Some True\<rparr>\<rparr>))"
  by (simp add: resume_def)

theorem resume_cases_witness:
  "resume example_shlex ''aria2c'' example_world (example_task\<lparr>status := ''Completed''\<rparr>)
     = (None,
        log example_world ''Task already completed, no need to resume''
          (example_task\<lparr>status := ''Completed''\<rparr>),
        example_world)
   \<and> alive (fst (run example_shlex [Start ''aria2c''] (example_task, example_world)))
   \<and> resume example_shlex ''aria2c'' example_world
        (fst (run example_shlex [Start ''aria2c''] (example_task, example_world)))
     = (None,
        log example_world ''Task is still running, cannot resume''
          (fst (run example_shlex [Start ''aria2c''] (example_task, example_world))),
        example_world)
   \<and> \<not> alive example_task
   \<and> resume example_shlex ''aria2c'' example_world example_task
     = start example_shlex ''aria2c'' example_world
         ((log example_world ''Resuming download (resume broken download)'' example_task)
            \<lparr>options := (options example_task)\<lparr>opt_continue := Some True\<rparr>\<rparr>)"
proof -
  let ?t = "fst (run example_shlex [Start ''aria2c''] (example_task, example_world))"
  have a: "status (example_task\<lparr>status := ''Completed''\<rparr>) = ''Completed''" by simp
  have b: "status ?t \<noteq> ''Completed'' \<and> alive ?t" by code_simp
  have c: "status example_task \<noteq> ''Completed'' \<and> \<not> alive example_task" by code_simp
  from resume_cases [of "example_task\<lparr>status := ''Completed''\<rparr>" example_shlex "''aria2c''" example_world]
       resume_cases [of ?t example_shlex "''aria2c''" example_world]
       resume_cases [of example_task example_shlex "''aria2c''" example_world]
  show ?thesis using a b c by blast
qed

text \<open>
  C2. After a successful \<^verbatim>\<open>start\<close>, \<^verbatim>\<open>pause\<close> followed by \<^verbatim>\<open>resume\<close> should spawn a
  second child. It spawns none, whether the terminated child is still running when
  \<^verbatim>\<open>resume\<close> is called or has exited by then: one child has been spawned in all.
\<close>

theorem pause_resume_one_spawn:
  "length (spawned (snd (run example_shlex [Start ''aria2c'', Pause, Resume ''aria2c'']
                           (example_task, example_world)))) = 1
   \<and> length (spawned (snd (run example_shlex
                           [Start ''aria2c'', Pause, Child_exit (- 15), Resume ''aria2c'']
                           (example_task, example_world)))) = 1"
  by code_simp

subsection \<open>The end of the child\<close>

text \<open>
  C1. After a successful \<^verbatim>\<open>start\<close>, a child that writes nothing and exits with
  code 0, and a run of the background reader with the stop flag down, the status
  should be \<^verbatim>\<open>Completed\<close>. It stays \<^verbatim>\<open>Downloading...\<close>.
\<close>

theorem reader_exit_0_not_completed:
  "status (fst (run example_shlex [Start ''aria2c''] (example_task, example_world)))
     = ''Downloading...''
   \<and> \<not> stop_flag (fst (run example_shlex [Start ''aria2c''] (example_task, example_world)))
   \<and> status (fst (run example_shlex [Start ''aria2c'', Read_output [] 0]
                     (example_task, example_world)))
     = ''Downloading...''"
  by code_simp

section \<open>Properties of the task list\<close>

text \<open>
  Deleting is refused only for the status \<^verbatim>\<open>"Downloading"\<close>, which no task has.
\<close>

lemma delete_task_never_refused:
  assumes "selected_task_index a = Some i" and "i < length (tasks a)"
    and "lifecycle_status (status (tasks a ! i))"
  shows "delete_task w a =
           Inr (app_log w (''Task deleted: '' @ url (tasks a ! i))
                  (a\<lparr>tasks := pop i (tasks a), selected_task_index := None\<rparr>))"
  using assms lifecycle_status_not_Downloading [OF assms(3)]
  by (simp add: delete_task_def Let_def)

text \<open>
  C3. Deleting a task that is downloading should be refused. The task added through
  the form and started has the status \<^verbatim>\<open>Downloading...\<close> and a running child, and
  \<^verbatim>\<open>_delete_task\<close> removes it from the task list, with no warning.
\<close>

theorem delete_downloading_task:
  "(case start_task example_shlex example_world example_app of
      Inl e \<Rightarrow> False
    | Inr (a, w) \<Rightarrow>
        map status (tasks a) = [''Downloading...'']
        \<and> map alive (tasks a) = [True]
        \<and> (case delete_task w a of
             Inl e \<Rightarrow> False
           | Inr a' \<Rightarrow> tasks a' = [] \<and> warnings a' = []))"
  by code_simp

end
